theory Spec2Isabelle
  imports Complex_Main "HOL-Library.Multiset" "HOL-Library.Char_ord" "HOL-Library.List_Lexorder"
    "HOL-Library.Sublist"
begin

section \<open>Data model\<close>

text \<open>
  The program \<^verbatim>\<open>streamlit_app.py\<close> works on pandas DataFrames. A DataFrame is modelled as
  the list of its column labels together with the list of its rows, in index order. The
  cells the program reads or writes have a field of their own in the row record, typed as
  the data model types them (strike a real number, open interest and volume integers,
  option type and expiration date strings); everything else the provider sends travels
  in \<open>other\<close>. A field whose label is not among \<open>columns\<close> is not part of the table:
  reading that column raises \<^verbatim>\<open>KeyError\<close>, as pandas does. The integer columns are
  int64 columns: their cells lie between \<open>- 2 ^ 63\<close> and \<open>2 ^ 63 - 1\<close>, and pandas adds and
  subtracts them in int64 without an overflow check, so a result outside this range
  wraps around. \<open>int64\<close> is that wrap.
\<close>

datatype error = ProviderError | KeyError string | ValueError

definition int64 :: "int \<Rightarrow> int" where
  "int64 k = (k + 2 ^ 63) mod 2 ^ 64 - 2 ^ 63"

record 'x row =
  strike :: real
  openInterest :: int
  volume :: int
  option_type :: string
  expiration_date :: string
  prev_openInterest :: int
  change_in_OI :: int
  other :: 'x

record 'x frame =
  columns :: "string list"
  rows :: "'x row list"

text \<open>\<^verbatim>\<open>pd.DataFrame()\<close>: no columns and no rows.\<close>

definition DataFrame :: "'x frame" where
  "DataFrame = \<lparr>columns = [], rows = []\<rparr>"

text \<open>\<^verbatim>\<open>df.empty\<close>: true when either axis has length 0.\<close>

definition empty :: "'x frame \<Rightarrow> bool" where
  "empty df \<longleftrightarrow> rows df = [] \<or> columns df = []"

text \<open>Assigning to \<^verbatim>\<open>df[c]\<close> keeps an existing label in place and appends a new one.\<close>

definition add_column :: "string \<Rightarrow> string list \<Rightarrow> string list" where
  "add_column c cs = (if c \<in> set cs then cs else cs @ [c])"

text \<open>\<^verbatim>\<open>df["option_type"] = v\<close> and \<^verbatim>\<open>df["expiration_date"] = v\<close> with a scalar \<open>v\<close>.\<close>

definition set_option_type :: "string \<Rightarrow> 'x frame \<Rightarrow> 'x frame" where
  "set_option_type v df =
     \<lparr>columns = add_column ''option_type'' (columns df),
      rows = map (\<lambda>r. r\<lparr>option_type := v\<rparr>) (rows df)\<rparr>"

definition set_expiration_date :: "string \<Rightarrow> 'x frame \<Rightarrow> 'x frame" where
  "set_expiration_date v df =
     \<lparr>columns = add_column ''expiration_date'' (columns df),
      rows = map (\<lambda>r. r\<lparr>expiration_date := v\<rparr>) (rows df)\<rparr>"

text \<open>
  \<^verbatim>\<open>df[c] = series\<close> for the two derived integer columns; the series is aligned with the
  rows by position (both carry the index of \<open>df\<close>).
\<close>

definition set_prev_openInterest :: "int list \<Rightarrow> 'x frame \<Rightarrow> 'x frame" where
  "set_prev_openInterest vs df =
     \<lparr>columns = add_column ''prev_openInterest'' (columns df),
      rows = map (\<lambda>(r, v). r\<lparr>prev_openInterest := v\<rparr>) (zip (rows df) vs)\<rparr>"

definition set_change_in_OI :: "int list \<Rightarrow> 'x frame \<Rightarrow> 'x frame" where
  "set_change_in_OI vs df =
     \<lparr>columns = add_column ''change_in_OI'' (columns df),
      rows = map (\<lambda>(r, v). r\<lparr>change_in_OI := v\<rparr>) (zip (rows df) vs)\<rparr>"

text \<open>\<^verbatim>\<open>df[c]\<close> for reading: the label must exist.\<close>

definition column :: "string \<Rightarrow> ('x row \<Rightarrow> 'a) \<Rightarrow> 'x frame \<Rightarrow> error + 'a list" where
  "column c field df =
     (if c \<in> set (columns df) then Inr (map field (rows df)) else Inl (KeyError c))"

section \<open>The provider and the session\<close>

text \<open>
  The market-data library is outside the program. It is a parameter: three operations,
  each of which may raise, and each of which may answer differently as the session goes
  on, so every operation sees the calls made so far. \<^verbatim>\<open>yf.Ticker(symbol)\<close> builds the
  handle, \<^verbatim>\<open>.options\<close> lists the expiration dates, \<^verbatim>\<open>.option_chain(date)\<close> returns the
  call side and the put side. The library builds both sides from one column list, so the
  answer carries the labels once.
\<close>

datatype call = NewTicker string | Options string | OptionChain string string

record 'x option_chain =
  labels :: "string list"
  calls :: "'x row list"
  puts :: "'x row list"

record 'x provider =
  Ticker :: "call list \<Rightarrow> string \<Rightarrow> error + unit"
  options :: "call list \<Rightarrow> string \<Rightarrow> error + string list"
  option_chain :: "call list \<Rightarrow> string \<Rightarrow> string \<Rightarrow> error + 'x option_chain"

text \<open>
  The session: the provider calls made so far and the three stores kept by
  \<^verbatim>\<open>@st.cache_data\<close>, one per decorated function, keyed by the arguments.
\<close>

record 'x session =
  io :: "call list"
  expirations_cache :: "string \<rightharpoonup> string list"
  chain_cache :: "string \<times> string \<rightharpoonup> 'x frame"
  valid_cache :: "string \<rightharpoonup> string list"

definition new_session :: "'x session" where
  "new_session = \<lparr>io = [], expirations_cache = Map.empty, chain_cache = Map.empty,
     valid_cache = Map.empty\<rparr>"

text \<open>
  \<^verbatim>\<open>@st.cache_data\<close> with its default arguments (no time to live, no entry limit): a stored
  value is returned without running the function; otherwise the function runs and its
  return value is stored. A call that raises stores nothing.
\<close>

definition cache_data ::
  "('s \<Rightarrow> 'k \<rightharpoonup> 'v) \<Rightarrow> (('k \<rightharpoonup> 'v) \<Rightarrow> 's \<Rightarrow> 's) \<Rightarrow> ('k \<Rightarrow> 's \<Rightarrow> (error + 'v) \<times> 's) \<Rightarrow>
   'k \<Rightarrow> 's \<Rightarrow> (error + 'v) \<times> 's" where
  "cache_data store put f k s =
     (case store s k of
        Some v \<Rightarrow> (Inr v, s)
      | None \<Rightarrow>
          (case f k s of
             (Inl x, s') \<Rightarrow> (Inl x, s')
           | (Inr v, s') \<Rightarrow> (Inr v, put ((store s')(k \<mapsto> v)) s')))"

definition record_call :: "call \<Rightarrow> 'x session \<Rightarrow> 'x session" where
  "record_call c s = s\<lparr>io := io s @ [c]\<rparr>"

section \<open>Remote data gateway\<close>

text \<open>
  \<^verbatim>\<open>get_all_expiration_dates\<close> without its decorator. The handle is built before the
  \<^verbatim>\<open>try\<close> block is entered; only \<^verbatim>\<open>ticker.options\<close> is inside it.
\<close>

definition get_all_expiration_dates_wrapped ::
  "'x provider \<Rightarrow> string \<Rightarrow> 'x session \<Rightarrow> (error + string list) \<times> 'x session" where
  "get_all_expiration_dates_wrapped P ticker_symbol s =
     (case Ticker P (io s) ticker_symbol of
        Inl x \<Rightarrow> (Inl x, record_call (NewTicker ticker_symbol) s)
      | Inr _ \<Rightarrow>
          (let s1 = record_call (NewTicker ticker_symbol) s;
               s2 = record_call (Options ticker_symbol) s1
           in case options P (io s1) ticker_symbol of
                Inl _ \<Rightarrow> (Inr [], s2)
              | Inr es \<Rightarrow> (Inr es, s2)))"

definition get_all_expiration_dates ::
  "'x provider \<Rightarrow> string \<Rightarrow> 'x session \<Rightarrow> (error + string list) \<times> 'x session" where
  "get_all_expiration_dates P =
     cache_data expirations_cache (\<lambda>m s. s\<lparr>expirations_cache := m\<rparr>)
       (get_all_expiration_dates_wrapped P)"

text \<open>
  The body of the \<^verbatim>\<open>try\<close> block of \<^verbatim>\<open>get_options_chain\<close> once the provider has answered:
  tag each side, concatenate calls before puts, stamp the expiration.
\<close>

definition normalize :: "string \<Rightarrow> 'x option_chain \<Rightarrow> 'x frame" where
  "normalize expiration oc =
     (let calls_df = set_option_type ''Call'' \<lparr>columns = labels oc, rows = calls oc\<rparr>;
          puts_df = set_option_type ''Put'' \<lparr>columns = labels oc, rows = puts oc\<rparr>;
          df = \<lparr>columns = columns calls_df, rows = rows calls_df @ rows puts_df\<rparr>
      in set_expiration_date expiration df)"

definition get_options_chain_wrapped ::
  "'x provider \<Rightarrow> string \<times> string \<Rightarrow> 'x session \<Rightarrow> (error + 'x frame) \<times> 'x session" where
  "get_options_chain_wrapped P k s =
     (case k of (ticker_symbol, expiration) \<Rightarrow>
        (case Ticker P (io s) ticker_symbol of
           Inl x \<Rightarrow> (Inl x, record_call (NewTicker ticker_symbol) s)
         | Inr _ \<Rightarrow>
             (let s1 = record_call (NewTicker ticker_symbol) s;
                  s2 = record_call (OptionChain ticker_symbol expiration) s1
              in case option_chain P (io s1) ticker_symbol expiration of
                   Inl _ \<Rightarrow> (Inr DataFrame, s2)
                 | Inr oc \<Rightarrow> (Inr (normalize expiration oc), s2))))"

definition get_options_chain ::
  "'x provider \<Rightarrow> string \<Rightarrow> string \<Rightarrow> 'x session \<Rightarrow> (error + 'x frame) \<times> 'x session" where
  "get_options_chain P ticker_symbol expiration =
     cache_data chain_cache (\<lambda>m s. s\<lparr>chain_cache := m\<rparr>)
       (get_options_chain_wrapped P) (ticker_symbol, expiration)"

section \<open>Expiration filter\<close>

text \<open>
  The loop condition \<^verbatim>\<open>not df.empty and df["openInterest"].sum() > 0\<close>; \<^verbatim>\<open>and\<close> does not
  evaluate its right operand when the left one is false. The sum is an int64 sum.
\<close>

definition has_open_interest :: "'x frame \<Rightarrow> error + bool" where
  "has_open_interest df =
     (if empty df then Inr False
      else case column ''openInterest'' openInterest df of
             Inl x \<Rightarrow> Inl x
           | Inr vs \<Rightarrow> Inr (int64 (sum_list vs) > 0))"

text \<open>The \<^verbatim>\<open>for\<close> loop of \<^verbatim>\<open>get_valid_expirations\<close>; \<open>acc\<close> is \<^verbatim>\<open>valid_expirations\<close>.\<close>

fun valid_loop ::
  "'x provider \<Rightarrow> string \<Rightarrow> string list \<Rightarrow> string list \<Rightarrow> 'x session \<Rightarrow>
   (error + string list) \<times> 'x session" where
  "valid_loop P ticker_symbol [] acc s = (Inr acc, s)"
| "valid_loop P ticker_symbol (expiry # rest) acc s =
     (case get_options_chain P ticker_symbol expiry s of
        (Inl x, s') \<Rightarrow> (Inl x, s')
      | (Inr df, s') \<Rightarrow>
          (case has_open_interest df of
             Inl x \<Rightarrow> (Inl x, s')
           | Inr b \<Rightarrow>
               valid_loop P ticker_symbol rest (if b then acc @ [expiry] else acc) s'))"

definition get_valid_expirations_wrapped ::
  "'x provider \<Rightarrow> string \<Rightarrow> 'x session \<Rightarrow> (error + string list) \<times> 'x session" where
  "get_valid_expirations_wrapped P ticker_symbol s =
     (case get_all_expiration_dates P ticker_symbol s of
        (Inl x, s') \<Rightarrow> (Inl x, s')
      | (Inr all_expirations, s') \<Rightarrow> valid_loop P ticker_symbol all_expirations [] s')"

definition get_valid_expirations ::
  "'x provider \<Rightarrow> string \<Rightarrow> 'x session \<Rightarrow> (error + string list) \<times> 'x session" where
  "get_valid_expirations P =
     cache_data valid_cache (\<lambda>m s. s\<lparr>valid_cache := m\<rparr>)
       (get_valid_expirations_wrapped P)"

section \<open>Derived fields and views\<close>

text \<open>
  \<^verbatim>\<open>df.groupby("strike")["openInterest"].shift(1, fill_value=0)\<close>: every row receives the
  open interest of the row before it in its own strike group, and 0 when there is none.
  pandas computes it in one pass over the rows in index order, remembering for each group
  the row seen last; \<open>seen\<close> is that memory. The result is aligned with the rows of the
  table, whose order does not change.
\<close>

fun group_shift :: "(real \<rightharpoonup> int) \<Rightarrow> 'x row list \<Rightarrow> int list" where
  "group_shift seen [] = []"
| "group_shift seen (r # rs) =
     (case seen (strike r) of None \<Rightarrow> 0 | Some v \<Rightarrow> v) #
     group_shift (seen(strike r \<mapsto> openInterest r)) rs"

text \<open>\<^verbatim>\<open>df[mask]\<close> with a boolean series computed from a column of \<open>df\<close>.\<close>

definition mask_rows :: "bool list \<Rightarrow> 'x frame \<Rightarrow> 'x frame" where
  "mask_rows keep df =
     \<lparr>columns = columns df, rows = map fst (filter snd (zip (rows df) keep))\<rparr>"

text \<open>
  Lines 55 and 56 of \<^verbatim>\<open>plot_change_in_open_interest\<close>: the previous open interest is
  computed only when the table does not carry the column yet. \<^verbatim>\<open>groupby("strike")\<close> needs
  the strike column and the selection needs the open interest column.
\<close>

definition ensure_prev_openInterest :: "'x frame \<Rightarrow> error + 'x frame" where
  "ensure_prev_openInterest df =
     (if ''prev_openInterest'' \<notin> set (columns df)
      then if ''strike'' \<notin> set (columns df) then Inl (KeyError ''strike'')
           else if ''openInterest'' \<notin> set (columns df) then Inl (KeyError ''openInterest'')
           else Inr (set_prev_openInterest (group_shift Map.empty (rows df)) df)
      else Inr df)"

text \<open>
  \<^verbatim>\<open>plot_change_in_open_interest\<close> writes the two derived columns into the table it is
  given, so the table after the call is part of what the function does: the second
  component of the result. The subtraction of line 58 is an int64 subtraction. Lines 61
  to 74 draw the figure from \<^verbatim>\<open>df_filtered\<close> with the plotting library, which is outside
  the program and may raise (it does when the table lacks the column named as
  \<^verbatim>\<open>hue\<close>): \<open>barplot\<close> is that library, a parameter, answering with the exception it
  raises or with \<open>None\<close> when the figure is drawn. By then both columns are written. The
  first component of the result is the exception, or the table the figure was drawn
  from.
\<close>

definition plot_change_in_open_interest ::
  "('x frame \<Rightarrow> error option) \<Rightarrow> 'x frame \<Rightarrow> (error + 'x frame) \<times> 'x frame" where
  "plot_change_in_open_interest barplot df =
     (case ensure_prev_openInterest df of
        Inl x \<Rightarrow> (Inl x, df)
      | Inr df1 \<Rightarrow>
          (case column ''openInterest'' openInterest df1 of
             Inl x \<Rightarrow> (Inl x, df1)
           | Inr oi \<Rightarrow>
               (case column ''prev_openInterest'' prev_openInterest df1 of
                  Inl x \<Rightarrow> (Inl x, df1)
                | Inr prev \<Rightarrow>
                    (let df2 = set_change_in_OI (map (\<lambda>(a, b). int64 (a - b)) (zip oi prev)) df1
                     in case column ''change_in_OI'' change_in_OI df2 of
                          Inl x \<Rightarrow> (Inl x, df2)
                        | Inr ch \<Rightarrow>
                            (let df_filtered = mask_rows (map (\<lambda>c. c \<noteq> 0) ch) df2
                             in case barplot df_filtered of
                                  Some x \<Rightarrow> (Inl x, df2)
                                | None \<Rightarrow> (Inr df_filtered, df2))))))"

text \<open>
  \<^verbatim>\<open>plot_volume\<close> and \<^verbatim>\<open>plot_open_interest_sorted\<close> only read the table they are given.
  Their result is the table they hand to the plotting library: the rows with positive
  volume, and the rows with positive open interest, sorted.
\<close>

definition plot_volume :: "'x frame \<Rightarrow> (error + 'x frame) \<times> 'x frame" where
  "plot_volume df =
     (case column ''volume'' volume df of
        Inl x \<Rightarrow> (Inl x, df)
      | Inr vol \<Rightarrow> (Inr (mask_rows (map (\<lambda>v. 0 < v) vol) df), df))"

text \<open>
  \<^verbatim>\<open>sort_values(by=["expiration_date", "strike"], ascending=[False, True])\<close>. With more
  than one key pandas sorts lexicographically and stably. \<open>sorts_before a b\<close> says that
  the keys of \<open>a\<close> come strictly before the keys of \<open>b\<close>: a later expiration date
  (dates are compared as strings), or the same date and a smaller strike. The sort puts
  each row in front of the first row that does not sort before it, which keeps rows with
  equal keys in their order.
\<close>

definition sorts_before :: "'x row \<Rightarrow> 'x row \<Rightarrow> bool" where
  "sorts_before a b \<longleftrightarrow>
     expiration_date b < expiration_date a \<or>
     (expiration_date a = expiration_date b \<and> strike a < strike b)"

fun insert_row :: "'x row \<Rightarrow> 'x row list \<Rightarrow> 'x row list" where
  "insert_row x [] = [x]"
| "insert_row x (y # ys) = (if sorts_before y x then y # insert_row x ys else x # y # ys)"

fun stable_sort :: "'x row list \<Rightarrow> 'x row list" where
  "stable_sort [] = []"
| "stable_sort (x # xs) = insert_row x (stable_sort xs)"

definition sort_values :: "'x frame \<Rightarrow> error + 'x frame" where
  "sort_values df =
     (if ''expiration_date'' \<notin> set (columns df) then Inl (KeyError ''expiration_date'')
      else if ''strike'' \<notin> set (columns df) then Inl (KeyError ''strike'')
      else Inr \<lparr>columns = columns df, rows = stable_sort (rows df)\<rparr>)"

definition plot_open_interest_sorted :: "'x frame \<Rightarrow> (error + 'x frame) \<times> 'x frame" where
  "plot_open_interest_sorted df =
     (case column ''openInterest'' openInterest df of
        Inl x \<Rightarrow> (Inl x, df)
      | Inr oi \<Rightarrow>
          (case sort_values (mask_rows (map (\<lambda>v. 0 < v) oi) df) of
             Inl x \<Rightarrow> (Inl x, df)
           | Inr df_sorted \<Rightarrow> (Inr df_sorted, df)))"

section \<open>Sessions as request sequences\<close>

text \<open>
  Within a session the three decorated functions are called again and again, in any
  order. \<open>serve\<close> is the session after one call, \<open>serve_all\<close> after a sequence of calls.
  \<open>fetched\<close> reads off a call log the expirations whose chains were requested from the
  provider, in the order of the requests.
\<close>

datatype request = ListExpirations string | FetchChain string string | ValidExpirations string

fun serve :: "'x provider \<Rightarrow> request \<Rightarrow> 'x session \<Rightarrow> 'x session" where
  "serve P (ListExpirations t) s = snd (get_all_expiration_dates P t s)"
| "serve P (FetchChain t e) s = snd (get_options_chain P t e s)"
| "serve P (ValidExpirations t) s = snd (get_valid_expirations P t s)"

fun serve_all :: "'x provider \<Rightarrow> request list \<Rightarrow> 'x session \<Rightarrow> 'x session" where
  "serve_all P [] s = s"
| "serve_all P (q # qs) s = serve_all P qs (serve P q s)"

fun fetched :: "call list \<Rightarrow> string list" where
  "fetched [] = []"
| "fetched (OptionChain t e # cs) = e # fetched cs"
| "fetched (c # cs) = fetched cs"

definition grows :: "'x session \<Rightarrow> 'x session \<Rightarrow> bool" where
  "grows s s' \<longleftrightarrow>
     expirations_cache s \<subseteq>\<^sub>m expirations_cache s' \<and> chain_cache s \<subseteq>\<^sub>m chain_cache s' \<and>
     valid_cache s \<subseteq>\<^sub>m valid_cache s' \<and> prefix (io s) (io s')"

text \<open>
  A sequence moved down by one position, with a value filled in at the top and the last
  element lost: what \<^verbatim>\<open>shift(1, fill_value=a)\<close> makes of one group.
\<close>

fun shifted :: "int \<Rightarrow> int list \<Rightarrow> int list" where
  "shifted a [] = []"
| "shifted a (x # xs) = a # shifted x xs"

text \<open>
  \<open>in_order a b\<close>: the keys of \<open>a\<close> may stand before the keys of \<open>b\<close> in a table sorted by
  expiration date descending and strike ascending.
\<close>

definition in_order :: "'x row \<Rightarrow> 'x row \<Rightarrow> bool" where
  "in_order a b \<longleftrightarrow>
     expiration_date b < expiration_date a \<or>
     (expiration_date a = expiration_date b \<and> strike a \<le> strike b)"

text \<open>
  What lines 55 to 59 of \<^verbatim>\<open>plot_change_in_open_interest\<close> come to when the columns they
  read are there: \<open>derived_table\<close> is the table after the two assignments,
  \<open>nonzero_changes\<close> the selection of line 59.
\<close>

definition derived_table :: "'x frame \<Rightarrow> 'x frame" where
  "derived_table df =
     \<lparr>columns = add_column ''change_in_OI'' (add_column ''prev_openInterest'' (columns df)),
      rows = map (\<lambda>(r, p). r\<lparr>prev_openInterest := p, change_in_OI := int64 (openInterest r - p)\<rparr>)
               (zip (rows df)
                  (if ''prev_openInterest'' \<in> set (columns df) then map prev_openInterest (rows df)
                   else group_shift Map.empty (rows df)))\<rparr>"

definition nonzero_changes :: "'x frame \<Rightarrow> 'x frame" where
  "nonzero_changes df = \<lparr>columns = columns df, rows = filter (\<lambda>r. change_in_OI r \<noteq> 0) (rows df)\<rparr>"

section \<open>What the stores hold\<close>

text \<open>
  The three stores are filled by the three functions only, and the valid-expirations
  store is filled from the other two. A session is coherent when every stored list of
  valid expirations is the stored list of all expirations of its ticker, filtered by the
  loop condition evaluated on the stored chains. \<open>stored_checked\<close> says that the chain is
  stored and the loop condition did not raise on it, \<open>stored_valid\<close> that the condition
  held.
\<close>

definition stored_valid :: "'x session \<Rightarrow> string \<Rightarrow> string \<Rightarrow> bool" where
  "stored_valid s t e \<longleftrightarrow>
     (\<exists>df. chain_cache s (t, e) = Some df \<and> has_open_interest df = Inr True)"

definition stored_checked :: "'x session \<Rightarrow> string \<Rightarrow> string \<Rightarrow> bool" where
  "stored_checked s t e \<longleftrightarrow>
     (\<exists>df b. chain_cache s (t, e) = Some df \<and> has_open_interest df = Inr b)"

definition coherent :: "'x session \<Rightarrow> bool" where
  "coherent s \<longleftrightarrow>
     (\<forall>t vs. valid_cache s t = Some vs \<longrightarrow>
        (\<exists>es. expirations_cache s t = Some es \<and>
              (\<forall>e\<in>set es. stored_checked s t e) \<and>
              vs = filter (stored_valid s t) es))"

section \<open>Example data\<close>

text \<open>
  A provider row with the three numeric cells; the provider sends no option type, no
  expiration date and no derived column, so these cells are blank.
\<close>

definition quote :: "real \<Rightarrow> int \<Rightarrow> int \<Rightarrow> unit row" where
  "quote k oi v = \<lparr>strike = k, openInterest = oi, volume = v, option_type = [],
     expiration_date = [], prev_openInterest = 0, change_in_OI = 0, other = ()\<rparr>"

text \<open>
  A provider with two expirations: every row of the first has open interest 0, one row of
  the second has open interest 5.
\<close>

definition example_reply :: "unit option_chain" where
  "example_reply =
     \<lparr>labels = [''strike'', ''openInterest'', ''volume''],
      calls = [quote 100 5 1], puts = [quote 90 0 0]\<rparr>"

definition example_provider :: "unit provider" where
  "example_provider =
     \<lparr>Ticker = (\<lambda>_ _. Inr ()),
      options = (\<lambda>_ _. Inr [''2025-01-17'', ''2025-02-21'']),
      option_chain = (\<lambda>_ _ e.
        if e = ''2025-01-17''
        then Inr \<lparr>labels = [''strike'', ''openInterest'', ''volume''],
                  calls = [quote 100 0 3], puts = [quote 100 0 0]\<rparr>
        else Inr example_reply)\<rparr>"

definition validated :: "unit session" where
  "validated = snd (get_valid_expirations example_provider ''AAPL'' new_session)"

text \<open>A row of a fetched chain, and the chain the example provider yields for its second expiration.\<close>

definition contract :: "real \<Rightarrow> int \<Rightarrow> int \<Rightarrow> string \<Rightarrow> string \<Rightarrow> unit row" where
  "contract k oi v ty ex = (quote k oi v)\<lparr>option_type := ty, expiration_date := ex\<rparr>"

definition example_chain :: "unit frame" where
  "example_chain =
     \<lparr>columns = [''strike'', ''openInterest'', ''volume'', ''option_type'', ''expiration_date''],
      rows = [contract 100 5 1 ''Call'' ''2025-02-21'', contract 90 0 0 ''Put'' ''2025-02-21'']\<rparr>"

definition listed_once :: "unit session" where
  "listed_once = snd (get_all_expiration_dates example_provider ''AAPL'' new_session)"

definition fetched_once :: "unit session" where
  "fetched_once = snd (get_options_chain example_provider ''AAPL'' ''2025-02-21'' new_session)"

definition later_requests :: "request list" where
  "later_requests =
     [ValidExpirations ''AAPL'', FetchChain ''AAPL'' ''2025-01-17'', ListExpirations ''MSFT'']"

text \<open>
  A provider that cannot be reached when a chain is requested, and a provider whose
  handle cannot even be built.
\<close>

definition offline_provider :: "unit provider" where
  "offline_provider =
     \<lparr>Ticker = (\<lambda>_ _. Inr ()),
      options = (\<lambda>_ _. Inr [''2025-01-17'', ''2025-02-21'']),
      option_chain = (\<lambda>_ _ _. Inl ProviderError)\<rparr>"

definition unreachable_provider :: "unit provider" where
  "unreachable_provider =
     \<lparr>Ticker = (\<lambda>_ _. Inl ProviderError),
      options = (\<lambda>_ _. Inl ProviderError),
      option_chain = (\<lambda>_ _ _. Inl ProviderError)\<rparr>"

text \<open>
  A chain in which strike 100 is observed twice, with open interest 30 and then 50.
\<close>

definition two_observations :: "unit frame" where
  "two_observations =
     \<lparr>columns = [''strike'', ''openInterest'', ''volume'', ''option_type'', ''expiration_date''],
      rows = [contract 100 30 1 ''Call'' ''2025-02-21'', contract 90 8 0 ''Call'' ''2025-02-21'',
              contract 100 50 2 ''Put'' ''2025-02-21'', contract 90 8 4 ''Put'' ''2025-02-21'']\<rparr>"

text \<open>What \<^verbatim>\<open>plot_change_in_open_interest\<close> makes of \<open>two_observations\<close>: the table and the view.\<close>

definition derived_observations :: "unit frame" where
  "derived_observations =
     \<lparr>columns = [''strike'', ''openInterest'', ''volume'', ''option_type'', ''expiration_date'',
                 ''prev_openInterest'', ''change_in_OI''],
      rows = [(contract 100 30 1 ''Call'' ''2025-02-21'')\<lparr>prev_openInterest := 0, change_in_OI := 30\<rparr>,
              (contract 90 8 0 ''Call'' ''2025-02-21'')\<lparr>prev_openInterest := 0, change_in_OI := 8\<rparr>,
              (contract 100 50 2 ''Put'' ''2025-02-21'')\<lparr>prev_openInterest := 30, change_in_OI := 20\<rparr>,
              (contract 90 8 4 ''Put'' ''2025-02-21'')\<lparr>prev_openInterest := 8, change_in_OI := 0\<rparr>]\<rparr>"

definition nonzero_observations :: "unit frame" where
  "nonzero_observations =
     \<lparr>columns = columns derived_observations, rows = butlast (rows derived_observations)\<rparr>"

text \<open>
  Rows of two expirations: strikes 100 and 90 for the earlier date, strike 100 for the
  later one, a row without open interest, and a second row of strike 90 for the earlier
  date. \<open>sorted_expirations\<close> lists them as \<^verbatim>\<open>plot_open_interest_sorted\<close> orders them.
\<close>

definition two_expirations :: "unit frame" where
  "two_expirations =
     \<lparr>columns = [''strike'', ''openInterest'', ''volume'', ''option_type'', ''expiration_date''],
      rows = [contract 100 10 1 ''Call'' ''2025-01-01'', contract 90 4 1 ''Call'' ''2025-01-01'',
              contract 100 7 1 ''Call'' ''2025-02-01'', contract 100 0 0 ''Put'' ''2025-02-01'',
              contract 90 6 2 ''Put'' ''2025-01-01'']\<rparr>"

definition sorted_expirations :: "unit frame" where
  "sorted_expirations =
     \<lparr>columns = [''strike'', ''openInterest'', ''volume'', ''option_type'', ''expiration_date''],
      rows = [contract 100 7 1 ''Call'' ''2025-02-01'', contract 90 4 1 ''Call'' ''2025-01-01'',
              contract 90 6 2 ''Put'' ''2025-01-01'', contract 100 10 1 ''Call'' ''2025-01-01'']\<rparr>"

text \<open>
  A plotting library that draws every table that has the column named as \<^verbatim>\<open>hue\<close> and
  raises \<^verbatim>\<open>ValueError\<close> on any other, and a table without that column.
\<close>

definition needs_hue :: "unit frame \<Rightarrow> error option" where
  "needs_hue df = (if ''option_type'' \<in> set (columns df) then None else Some ValueError)"

definition no_hue_table :: "unit frame" where
  "no_hue_table = \<lparr>columns = [''strike'', ''openInterest''], rows = [quote 100 30 0]\<rparr>"

text \<open>
  A provider with one expiration whose chain has a call with open interest \<open>2 ^ 63 - 1\<close>
  and a put with open interest 1, and the chain fetched from it: the open interest adds
  up to \<open>2 ^ 63\<close>, one more than int64 holds.
\<close>

definition overflowing_provider :: "unit provider" where
  "overflowing_provider =
     \<lparr>Ticker = (\<lambda>_ _. Inr ()),
      options = (\<lambda>_ _. Inr [''2025-02-21'']),
      option_chain = (\<lambda>_ _ _.
        Inr \<lparr>labels = [''strike'', ''openInterest'', ''volume''],
             calls = [quote 100 9223372036854775807 1], puts = [quote 100 1 1]\<rparr>)\<rparr>"

definition overflowing_chain :: "unit frame" where
  "overflowing_chain =
     \<lparr>columns = [''strike'', ''openInterest'', ''volume'', ''option_type'', ''expiration_date''],
      rows = [contract 100 9223372036854775807 1 ''Call'' ''2025-02-21'',
              contract 100 1 1 ''Put'' ''2025-02-21'']\<rparr>"



text \<open>
  A provider whose handle cannot be built the first time it is asked for and can be
  built from then on.
\<close>

definition flaky_provider :: "unit provider" where
  "flaky_provider =
     \<lparr>Ticker = (\<lambda>l _. if l = [] then Inl ProviderError else Inr ()),
      options = (\<lambda>_ _. Inr [''2025-01-17'', ''2025-02-21'']),
      option_chain = (\<lambda>_ _ _. Inr example_reply)\<rparr>"

section \<open>Stores and their frames\<close>

lemma cache_data_hit:
  "store s k = Some v \<Longrightarrow> cache_data store put f k s = (Inr v, s)"
  by (simp add: cache_data_def)

lemma io_record_call: "io (record_call c s) = io s @ [c]"
  and expirations_cache_record_call: "expirations_cache (record_call c s) = expirations_cache s"
  and chain_cache_record_call: "chain_cache (record_call c s) = chain_cache s"
  and valid_cache_record_call: "valid_cache (record_call c s) = valid_cache s"
  by (simp_all add: record_call_def)

lemmas record_call_simps = io_record_call expirations_cache_record_call
  chain_cache_record_call valid_cache_record_call

lemma get_options_chain_cases:
  assumes "get_options_chain P t e s = (r, s')"
  shows "(\<exists>df. chain_cache s (t, e) = Some df \<and> r = Inr df \<and> s' = s) \<or>
         (chain_cache s (t, e) = None \<and> (\<exists>x. r = Inl x) \<and> s' = record_call (NewTicker t) s) \<or>
         (chain_cache s (t, e) = None \<and>
          (\<exists>df. r = Inr df \<and>
             s' = (record_call (OptionChain t e) (record_call (NewTicker t) s))
                    \<lparr>chain_cache := (chain_cache s)((t, e) \<mapsto> df)\<rparr>))"
  using assms
  by (auto simp: get_options_chain_def cache_data_def get_options_chain_wrapped_def Let_def
      record_call_simps split: option.splits sum.splits)

lemma get_all_expiration_dates_cases:
  assumes "get_all_expiration_dates P t s = (r, s')"
  shows "(\<exists>es. expirations_cache s t = Some es \<and> r = Inr es \<and> s' = s) \<or>
         (expirations_cache s t = None \<and> (\<exists>x. r = Inl x) \<and> s' = record_call (NewTicker t) s) \<or>
         (expirations_cache s t = None \<and>
          (\<exists>es. r = Inr es \<and>
             s' = (record_call (Options t) (record_call (NewTicker t) s))
                    \<lparr>expirations_cache := (expirations_cache s)(t \<mapsto> es)\<rparr>))"
proof (cases "expirations_cache s t")
  case (Some es)
  with assms show ?thesis
    by (simp add: get_all_expiration_dates_def cache_data_def)
next
  case None
  show ?thesis
  proof (cases "Ticker P (io s) t")
    case (Inl x)
    with None assms show ?thesis
      by (auto simp: get_all_expiration_dates_def cache_data_def
          get_all_expiration_dates_wrapped_def)
  next
    case (Inr u)
    define s2 where "s2 = record_call (Options t) (record_call (NewTicker t) s)"
    have w: "get_all_expiration_dates_wrapped P t s =
        (Inr (case options P (io s @ [NewTicker t]) t of Inl _ \<Rightarrow> [] | Inr es \<Rightarrow> es), s2)"
      using Inr by (simp add: get_all_expiration_dates_wrapped_def Let_def record_call_simps
          s2_def split: sum.splits)
    have "r = Inr (case options P (io s @ [NewTicker t]) t of Inl _ \<Rightarrow> [] | Inr es \<Rightarrow> es)"
      and "s' = s2\<lparr>expirations_cache := (expirations_cache s)(t \<mapsto>
          (case options P (io s @ [NewTicker t]) t of Inl _ \<Rightarrow> [] | Inr es \<Rightarrow> es))\<rparr>"
      using assms None w
      by (simp_all add: get_all_expiration_dates_def cache_data_def s2_def record_call_simps)
    with None show ?thesis unfolding s2_def by blast
  qed
qed


lemma get_options_chain_frame:
  assumes "get_options_chain P t e s = (r, s')"
  shows "expirations_cache s' = expirations_cache s"
    and "valid_cache s' = valid_cache s"
    and "chain_cache s \<subseteq>\<^sub>m chain_cache s'"
    and "prefix (io s) (io s')"
    and "r = Inr df \<Longrightarrow> chain_cache s' (t, e) = Some df"
  using get_options_chain_cases [OF assms]
  by (auto simp: record_call_simps map_le_def)

lemma get_all_expiration_dates_frame:
  assumes "get_all_expiration_dates P t s = (r, s')"
  shows "chain_cache s' = chain_cache s"
    and "valid_cache s' = valid_cache s"
    and "expirations_cache s \<subseteq>\<^sub>m expirations_cache s'"
    and "prefix (io s) (io s')"
    and "r = Inr es \<Longrightarrow> expirations_cache s' t = Some es"
  using get_all_expiration_dates_cases [OF assms]
  by (auto simp: record_call_simps map_le_def)

lemma map_le_Some: "m \<subseteq>\<^sub>m m' \<Longrightarrow> m k = Some v \<Longrightarrow> m' k = Some v"
  by (metis domI map_le_def)

lemma stored_valid_mono:
  "chain_cache s \<subseteq>\<^sub>m chain_cache s' \<Longrightarrow> stored_checked s t e \<Longrightarrow>
   stored_valid s' t e = stored_valid s t e"
  unfolding stored_valid_def stored_checked_def
  by (metis map_le_Some option.inject)

lemma stored_checked_mono:
  "chain_cache s \<subseteq>\<^sub>m chain_cache s' \<Longrightarrow> stored_checked s t e \<Longrightarrow> stored_checked s' t e"
  unfolding stored_checked_def by (metis map_le_Some)

lemma valid_loop_frame:
  assumes "valid_loop P t es acc s = (r, s')"
  shows "expirations_cache s' = expirations_cache s \<and> valid_cache s' = valid_cache s \<and>
         chain_cache s \<subseteq>\<^sub>m chain_cache s' \<and> prefix (io s) (io s')"
  using assms
proof (induction es arbitrary: acc s)
  case Nil
  then show ?case by simp
next
  case (Cons e es)
  obtain r1 s1 where g: "get_options_chain P t e s = (r1, s1)"
    by (cases "get_options_chain P t e s")
  note f = get_options_chain_frame [OF g]
  show ?case
  proof (cases r1)
    case (Inl x)
    with Cons.prems g f show ?thesis by simp
  next
    case (Inr df)
    show ?thesis
    proof (cases "has_open_interest df")
      case (Inl x)
      with Cons.prems g f Inr show ?thesis by simp
    next
      case b: (Inr b)
      from Cons.prems g Inr b
      have "valid_loop P t es (if b then acc @ [e] else acc) s1 = (r, s')" by simp
      from Cons.IH [OF this] f show ?thesis
        by (auto intro: map_le_trans)
    qed
  qed
qed

lemma valid_loop_result:
  assumes "valid_loop P t es acc s = (Inr vs, s')"
  shows "(\<forall>e\<in>set es. stored_checked s' t e) \<and> vs = acc @ filter (stored_valid s' t) es"
  using assms
proof (induction es arbitrary: acc s)
  case Nil
  then show ?case by simp
next
  case (Cons e es)
  obtain r1 s1 where g: "get_options_chain P t e s = (r1, s1)"
    by (cases "get_options_chain P t e s")
  from Cons.prems g obtain df where r1: "r1 = Inr df"
    by (cases r1) auto
  from Cons.prems g r1 obtain b where b: "has_open_interest df = Inr b"
    by (cases "has_open_interest df") auto
  from Cons.prems g r1 b
  have rest: "valid_loop P t es (if b then acc @ [e] else acc) s1 = (Inr vs, s')" by simp
  have "chain_cache s1 (t, e) = Some df"
    using get_options_chain_frame(5) [OF g r1] .
  moreover have "chain_cache s1 \<subseteq>\<^sub>m chain_cache s'"
    using valid_loop_frame [OF rest] by simp
  ultimately have df: "chain_cache s' (t, e) = Some df"
    by (rule map_le_Some [rotated])
  from df b have c: "stored_checked s' t e"
    by (auto simp: stored_checked_def)
  from df b have v: "stored_valid s' t e \<longleftrightarrow> b"
    by (auto simp: stored_valid_def)
  from Cons.IH [OF rest] c v show ?case by auto
qed


lemma int64_exact: "- (2 ^ 63) \<le> k \<Longrightarrow> k < 2 ^ 63 \<Longrightarrow> int64 k = k"
  by (simp add: int64_def)

lemma int64_zero [simp]: "int64 0 = 0"
  by (simp add: int64_def)

lemma has_open_interest_True:
  "has_open_interest df = Inr True \<longleftrightarrow>
     \<not> empty df \<and> ''openInterest'' \<in> set (columns df) \<and>
     0 < int64 (sum_list (map openInterest (rows df)))"
  by (simp add: has_open_interest_def column_def)

lemma has_open_interest_Inr:
  "has_open_interest df = Inr b \<Longrightarrow>
     b = (\<not> empty df \<and> 0 < int64 (sum_list (map openInterest (rows df))))"
  by (auto simp: has_open_interest_def column_def split: if_splits)

lemma has_open_interest_empty: "empty df \<Longrightarrow> has_open_interest df = Inr False"
  by (simp add: has_open_interest_def)

lemma get_valid_expirations_wrapped_frame:
  assumes "get_valid_expirations_wrapped P t s = (r, s1)"
  shows "valid_cache s1 = valid_cache s \<and> expirations_cache s \<subseteq>\<^sub>m expirations_cache s1 \<and>
         chain_cache s \<subseteq>\<^sub>m chain_cache s1 \<and> prefix (io s) (io s1)"
proof -
  obtain r0 s0 where a: "get_all_expiration_dates P t s = (r0, s0)"
    by (cases "get_all_expiration_dates P t s")
  note f = get_all_expiration_dates_frame [OF a]
  show ?thesis
  proof (cases r0)
    case (Inl x)
    with assms a f show ?thesis
      by (simp add: get_valid_expirations_wrapped_def)
  next
    case (Inr es)
    with assms a have "valid_loop P t es [] s0 = (r, s1)"
      by (simp add: get_valid_expirations_wrapped_def)
    from valid_loop_frame [OF this] f show ?thesis
      by (auto intro: prefix_order.order_trans)
  qed
qed

lemma get_valid_expirations_wrapped_result:
  assumes "get_valid_expirations_wrapped P t s = (Inr vs, s1)"
  shows "\<exists>es. expirations_cache s1 t = Some es \<and> (\<forall>e\<in>set es. stored_checked s1 t e) \<and>
              vs = filter (stored_valid s1 t) es"
proof -
  obtain r0 s0 where a: "get_all_expiration_dates P t s = (r0, s0)"
    by (cases "get_all_expiration_dates P t s")
  with assms obtain es where r0: "r0 = Inr es"
    by (cases r0) (auto simp: get_valid_expirations_wrapped_def)
  with assms a have l: "valid_loop P t es [] s0 = (Inr vs, s1)"
    by (simp add: get_valid_expirations_wrapped_def)
  have "expirations_cache s0 t = Some es"
    using get_all_expiration_dates_frame(5) [OF a r0] .
  with valid_loop_frame [OF l] have "expirations_cache s1 t = Some es" by simp
  with valid_loop_result [OF l] show ?thesis by simp
qed

lemma coherent_mono:
  assumes "coherent s" and "valid_cache s' = valid_cache s"
    and "expirations_cache s \<subseteq>\<^sub>m expirations_cache s'"
    and "chain_cache s \<subseteq>\<^sub>m chain_cache s'"
  shows "coherent s'"
  unfolding coherent_def
proof (intro allI impI)
  fix t vs
  assume "valid_cache s' t = Some vs"
  with assms(1,2) obtain es where es: "expirations_cache s t = Some es"
    and ch: "\<forall>e\<in>set es. stored_checked s t e" and vs: "vs = filter (stored_valid s t) es"
    unfolding coherent_def by metis
  have "expirations_cache s' t = Some es"
    using assms(3) es by (rule map_le_Some)
  moreover have "\<forall>e\<in>set es. stored_checked s' t e"
    using ch stored_checked_mono [OF assms(4)] by blast
  moreover have "filter (stored_valid s' t) es = filter (stored_valid s t) es"
    using ch stored_valid_mono [OF assms(4)] by (auto intro: filter_cong)
  ultimately show "\<exists>es. expirations_cache s' t = Some es \<and>
      (\<forall>e\<in>set es. stored_checked s' t e) \<and> vs = filter (stored_valid s' t) es"
    using vs by simp
qed

lemma get_valid_expirations_cases:
  assumes "get_valid_expirations P t s = (r, s')"
  shows "(\<exists>vs. valid_cache s t = Some vs \<and> r = Inr vs \<and> s' = s) \<or>
         (valid_cache s t = None \<and> (\<exists>x. r = Inl x) \<and>
            get_valid_expirations_wrapped P t s = (r, s')) \<or>
         (valid_cache s t = None \<and>
            (\<exists>vs s1. r = Inr vs \<and> get_valid_expirations_wrapped P t s = (Inr vs, s1) \<and>
               s' = s1\<lparr>valid_cache := (valid_cache s1)(t \<mapsto> vs)\<rparr>))"
proof (cases "valid_cache s t")
  case (Some vs)
  with assms show ?thesis
    by (simp add: get_valid_expirations_def cache_data_def)
next
  case None
  obtain r1 s1 where w: "get_valid_expirations_wrapped P t s = (r1, s1)"
    by (cases "get_valid_expirations_wrapped P t s")
  show ?thesis
  proof (cases r1)
    case (Inl x)
    with assms None w show ?thesis
      by (auto simp: get_valid_expirations_def cache_data_def)
  next
    case (Inr vs)
    with assms None w have "r = Inr vs"
      and "s' = s1\<lparr>valid_cache := (valid_cache s1)(t \<mapsto> vs)\<rparr>"
      by (auto simp: get_valid_expirations_def cache_data_def)
    with None w Inr show ?thesis by blast
  qed
qed

lemma stored_valid_cache_update [simp]:
  "stored_valid (s\<lparr>valid_cache := m\<rparr>) = stored_valid s"
  "stored_checked (s\<lparr>valid_cache := m\<rparr>) = stored_checked s"
  by (simp_all add: fun_eq_iff stored_valid_def stored_checked_def)

lemma coherent_store_valid:
  assumes "coherent s1" and "expirations_cache s1 t = Some es"
    and "\<forall>e\<in>set es. stored_checked s1 t e"
  shows "coherent (s1\<lparr>valid_cache := (valid_cache s1)(t \<mapsto> filter (stored_valid s1 t) es)\<rparr>)"
  using assms by (simp add: coherent_def)

lemma sum_list_all_zero: "\<forall>x\<in>set xs. f x = (0::int) \<Longrightarrow> sum_list (map f xs) = 0"
  by (induction xs) simp_all

lemma get_valid_expirations_coherent:
  assumes "coherent s" and "get_valid_expirations P t s = (r, s')"
  shows "coherent s'"
  using get_valid_expirations_cases [OF assms(2)]
proof (elim disjE conjE exE)
  fix vs assume "s' = s"
  with assms(1) show ?thesis by simp
next
  fix x assume "get_valid_expirations_wrapped P t s = (r, s')"
  from get_valid_expirations_wrapped_frame [OF this] assms(1) show ?thesis
    by (auto intro: coherent_mono)
next
  fix vs s1
  assume w: "get_valid_expirations_wrapped P t s = (Inr vs, s1)"
    and s': "s' = s1\<lparr>valid_cache := (valid_cache s1)(t \<mapsto> vs)\<rparr>"
  from get_valid_expirations_wrapped_frame [OF w] assms(1) have "coherent s1"
    by (auto intro: coherent_mono)
  with get_valid_expirations_wrapped_result [OF w] s' show ?thesis
    by (auto intro: coherent_store_valid)
qed

lemma get_valid_expirations_stored:
  assumes "get_valid_expirations P t s = (Inr vs, s')"
  shows "valid_cache s' t = Some vs"
  using get_valid_expirations_cases [OF assms] by auto

lemma coherent_new_session: "coherent new_session"
  by (simp add: coherent_def new_session_def)

section \<open>The expiration filter\<close>

text \<open>
  Claim C1, with the sum taken as the code takes it. In a coherent session, when
  \<^verbatim>\<open>get_valid_expirations\<close> returns a list, every expiration it contains is one of the
  listed expirations of the ticker, and a listed expiration is in the result if and only
  if fetching its chain yields a table that is not empty and whose open interest, added
  up in int64, is more than 0. When the total fits int64 this is the total itself. In
  particular an expiration whose table is empty, or whose rows all have open interest 0,
  is left out. Listing and fetching are read in the session the call leaves behind,
  where they are answered from the stores.
\<close>

theorem valid_expirations_iff:
  assumes "coherent s" and "get_valid_expirations P ticker_symbol s = (Inr vs, s')"
  shows "\<exists>es. get_all_expiration_dates P ticker_symbol s' = (Inr es, s') \<and>
           set vs \<subseteq> set es \<and>
           (\<forall>e\<in>set es. \<exists>df. get_options_chain P ticker_symbol e s' = (Inr df, s') \<and>
              (e \<in> set vs \<longleftrightarrow>
                 \<not> empty df \<and> 0 < int64 (sum_list (map openInterest (rows df)))) \<and>
              (- (2 ^ 63) \<le> sum_list (map openInterest (rows df)) \<and>
               sum_list (map openInterest (rows df)) < 2 ^ 63 \<longrightarrow>
                 (e \<in> set vs \<longleftrightarrow>
                    \<not> empty df \<and> 0 < sum_list (map openInterest (rows df)))) \<and>
              (empty df \<or> (\<forall>r\<in>set (rows df). openInterest r = 0) \<longrightarrow> e \<notin> set vs))"
proof -
  have c: "coherent s'"
    using assms by (rule get_valid_expirations_coherent)
  have "valid_cache s' ticker_symbol = Some vs"
    using assms(2) by (rule get_valid_expirations_stored)
  with c obtain es where es: "expirations_cache s' ticker_symbol = Some es"
    and ch: "\<forall>e\<in>set es. stored_checked s' ticker_symbol e"
    and vs: "vs = filter (stored_valid s' ticker_symbol) es"
    unfolding coherent_def by metis
  have "get_all_expiration_dates P ticker_symbol s' = (Inr es, s')"
    using es by (simp add: get_all_expiration_dates_def cache_data_hit)
  moreover have "set vs \<subseteq> set es"
    using vs by auto
  moreover have "\<exists>df. get_options_chain P ticker_symbol e s' = (Inr df, s') \<and>
      (e \<in> set vs \<longleftrightarrow> \<not> empty df \<and> 0 < int64 (sum_list (map openInterest (rows df)))) \<and>
      (- (2 ^ 63) \<le> sum_list (map openInterest (rows df)) \<and>
       sum_list (map openInterest (rows df)) < 2 ^ 63 \<longrightarrow>
         (e \<in> set vs \<longleftrightarrow> \<not> empty df \<and> 0 < sum_list (map openInterest (rows df)))) \<and>
      (empty df \<or> (\<forall>r\<in>set (rows df). openInterest r = 0) \<longrightarrow> e \<notin> set vs)"
    if e: "e \<in> set es" for e
  proof -
    from ch e obtain df b where df: "chain_cache s' (ticker_symbol, e) = Some df"
      and b: "has_open_interest df = Inr b"
      unfolding stored_checked_def by blast
    have g: "get_options_chain P ticker_symbol e s' = (Inr df, s')"
      using df by (simp add: get_options_chain_def cache_data_hit)
    have "e \<in> set vs \<longleftrightarrow> b"
      using vs e df b by (auto simp: stored_valid_def)
    with has_open_interest_Inr [OF b]
    have iff: "e \<in> set vs \<longleftrightarrow>
        \<not> empty df \<and> 0 < int64 (sum_list (map openInterest (rows df)))"
      by simp
    have exact: "e \<in> set vs \<longleftrightarrow> \<not> empty df \<and> 0 < sum_list (map openInterest (rows df))"
      if "- (2 ^ 63) \<le> sum_list (map openInterest (rows df))"
        and "sum_list (map openInterest (rows df)) < 2 ^ 63"
      using iff int64_exact [OF that] by simp
    have "sum_list (map openInterest (rows df)) = 0"
      if "\<forall>r\<in>set (rows df). openInterest r = 0"
      using that by (rule sum_list_all_zero)
    with iff have zero: "e \<notin> set vs"
      if "empty df \<or> (\<forall>r\<in>set (rows df). openInterest r = 0)"
      using that by auto
    from g iff exact zero show ?thesis by blast
  qed
  ultimately show ?thesis by blast
qed

lemma example_validation:
  "get_valid_expirations example_provider ''AAPL'' new_session = (Inr [''2025-02-21''], validated)"
proof -
  have "fst (get_valid_expirations example_provider ''AAPL'' new_session) = Inr [''2025-02-21'']"
    by (simp add: get_valid_expirations_def get_valid_expirations_wrapped_def cache_data_def
        get_all_expiration_dates_def get_all_expiration_dates_wrapped_def
        get_options_chain_def get_options_chain_wrapped_def normalize_def
        set_option_type_def set_expiration_date_def add_column_def has_open_interest_def
        column_def empty_def record_call_def new_session_def example_provider_def
        example_reply_def quote_def int64_def Let_def)
  then show ?thesis
    by (simp add: validated_def prod_eq_iff)
qed

theorem valid_expirations_iff_witness:
  "coherent (new_session :: unit session) \<and>
   get_valid_expirations example_provider ''AAPL'' new_session = (Inr [''2025-02-21''], validated) \<and>
   (\<exists>es. get_all_expiration_dates example_provider ''AAPL'' validated = (Inr es, validated) \<and>
      set [''2025-02-21''] \<subseteq> set es \<and>
      (\<forall>e\<in>set es. \<exists>df. get_options_chain example_provider ''AAPL'' e validated = (Inr df, validated) \<and>
         (e \<in> set [''2025-02-21''] \<longleftrightarrow>
            \<not> empty df \<and> 0 < int64 (sum_list (map openInterest (rows df)))) \<and>
         (- (2 ^ 63) \<le> sum_list (map openInterest (rows df)) \<and>
          sum_list (map openInterest (rows df)) < 2 ^ 63 \<longrightarrow>
            (e \<in> set [''2025-02-21''] \<longleftrightarrow>
               \<not> empty df \<and> 0 < sum_list (map openInterest (rows df)))) \<and>
         (empty df \<or> (\<forall>r\<in>set (rows df). openInterest r = 0) \<longrightarrow>
            e \<notin> set [''2025-02-21''])))"
proof (intro conjI)
  show "coherent (new_session :: unit session)"
    by (rule coherent_new_session)
  show "get_valid_expirations example_provider ''AAPL'' new_session =
      (Inr [''2025-02-21''], validated)"
    by (rule example_validation)
  show "\<exists>es. get_all_expiration_dates example_provider ''AAPL'' validated = (Inr es, validated) \<and>
      set [''2025-02-21''] \<subseteq> set es \<and>
      (\<forall>e\<in>set es. \<exists>df. get_options_chain example_provider ''AAPL'' e validated = (Inr df, validated) \<and>
         (e \<in> set [''2025-02-21''] \<longleftrightarrow>
            \<not> empty df \<and> 0 < int64 (sum_list (map openInterest (rows df)))) \<and>
         (- (2 ^ 63) \<le> sum_list (map openInterest (rows df)) \<and>
          sum_list (map openInterest (rows df)) < 2 ^ 63 \<longrightarrow>
            (e \<in> set [''2025-02-21''] \<longleftrightarrow>
               \<not> empty df \<and> 0 < sum_list (map openInterest (rows df)))) \<and>
         (empty df \<or> (\<forall>r\<in>set (rows df). openInterest r = 0) \<longrightarrow>
            e \<notin> set [''2025-02-21'']))"
    by (rule valid_expirations_iff [OF coherent_new_session example_validation])
qed

text \<open>
  With the sum taken in the integers the equivalence fails: the chain of the overflowing
  provider is not empty and its open interest adds up to \<open>2 ^ 63\<close>, which is more than
  0, yet the int64 sum is \<open>- 2 ^ 63\<close> and the expiration is left out.
\<close>

theorem valid_expirations_iff_counterexample:
  "fst (get_valid_expirations overflowing_provider ''AAPL'' new_session) = Inr [] \<and>
   fst (get_all_expiration_dates overflowing_provider ''AAPL'' new_session) = Inr [''2025-02-21''] \<and>
   fst (get_options_chain overflowing_provider ''AAPL'' ''2025-02-21'' new_session) =
     Inr overflowing_chain \<and>
   \<not> empty overflowing_chain \<and>
   sum_list (map openInterest (rows overflowing_chain)) = 9223372036854775808 \<and>
   0 < sum_list (map openInterest (rows overflowing_chain))"
  by (simp add: get_valid_expirations_def get_valid_expirations_wrapped_def cache_data_def
      get_all_expiration_dates_def get_all_expiration_dates_wrapped_def
      get_options_chain_def get_options_chain_wrapped_def normalize_def
      set_option_type_def set_expiration_date_def add_column_def has_open_interest_def
      column_def empty_def record_call_def new_session_def overflowing_provider_def
      overflowing_chain_def contract_def quote_def int64_def Let_def)

section \<open>The result cache\<close>

lemma grows_refl: "grows s s"
  by (simp add: grows_def)

lemma grows_trans: "grows s s1 \<Longrightarrow> grows s1 s2 \<Longrightarrow> grows s s2"
  unfolding grows_def by (meson map_le_trans prefix_order.order_trans)

lemma get_all_expiration_dates_grows:
  "get_all_expiration_dates P t s = (r, s') \<Longrightarrow> grows s s'"
  using get_all_expiration_dates_frame [of P t s r s'] by (simp add: grows_def)

lemma get_options_chain_grows:
  "get_options_chain P t e s = (r, s') \<Longrightarrow> grows s s'"
  using get_options_chain_frame [of P t e s r s'] by (simp add: grows_def)

lemma get_valid_expirations_grows:
  assumes "get_valid_expirations P t s = (r, s')"
  shows "grows s s'"
  using get_valid_expirations_cases [OF assms]
proof (elim disjE conjE exE)
  fix vs assume "s' = s"
  then show ?thesis by (simp add: grows_refl)
next
  fix x assume "get_valid_expirations_wrapped P t s = (r, s')"
  from get_valid_expirations_wrapped_frame [OF this] show ?thesis
    by (simp add: grows_def)
next
  fix vs s1
  assume n: "valid_cache s t = None"
    and w: "get_valid_expirations_wrapped P t s = (Inr vs, s1)"
    and s': "s' = s1\<lparr>valid_cache := (valid_cache s1)(t \<mapsto> vs)\<rparr>"
  from get_valid_expirations_wrapped_frame [OF w] n s' show ?thesis
    by (auto simp: grows_def map_le_def)
qed

lemma serve_grows: "grows s (serve P q s)"
proof (cases q)
  case (ListExpirations t)
  then show ?thesis
    using get_all_expiration_dates_grows [of P t s] by (cases "get_all_expiration_dates P t s") simp
next
  case (FetchChain t e)
  then show ?thesis
    using get_options_chain_grows [of P t e s] by (cases "get_options_chain P t e s") simp
next
  case (ValidExpirations t)
  then show ?thesis
    using get_valid_expirations_grows [of P t s] by (cases "get_valid_expirations P t s") simp
qed

lemma serve_all_grows: "grows s (serve_all P qs s)"
proof (induction qs arbitrary: s)
  case Nil
  show ?case by (simp add: grows_refl)
next
  case (Cons q qs)
  show ?case
    using grows_trans [OF serve_grows Cons.IH] by simp
qed

lemma get_all_expiration_dates_stored:
  "get_all_expiration_dates P t s = (Inr es, s') \<Longrightarrow> expirations_cache s' t = Some es"
  by (rule get_all_expiration_dates_frame(5)) simp_all

lemma get_options_chain_stored:
  "get_options_chain P t e s = (Inr df, s') \<Longrightarrow> chain_cache s' (t, e) = Some df"
  by (rule get_options_chain_frame(5)) simp_all


lemma raise_stores_nothing:
  "get_all_expiration_dates P t s = (Inl x, s1) \<Longrightarrow> expirations_cache s1 = expirations_cache s"
  "get_options_chain P t e s = (Inl x, s1) \<Longrightarrow> chain_cache s1 = chain_cache s"
  "get_valid_expirations P t s = (Inl x, s1) \<Longrightarrow> valid_cache s1 = valid_cache s"
proof -
  show "expirations_cache s1 = expirations_cache s"
    if "get_all_expiration_dates P t s = (Inl x, s1)"
    using get_all_expiration_dates_cases [OF that] by (auto simp: record_call_simps)
  show "chain_cache s1 = chain_cache s" if "get_options_chain P t e s = (Inl x, s1)"
    using get_options_chain_cases [OF that] by (auto simp: record_call_simps)
  show "valid_cache s1 = valid_cache s" if "get_valid_expirations P t s = (Inl x, s1)"
    using get_valid_expirations_cases [OF that] get_valid_expirations_wrapped_frame [of P t s "Inl x" s1]
    by auto
qed

text \<open>
  Claim C7, for the keys whose call has returned. Once one of the three decorated
  functions has returned a value for a key, a call with the same key later in the
  session, whatever requests were served in between, returns an equal value and leaves
  the session as it is: no provider call is recorded and no store changes. The answer is
  the same for any wrapped function put in place of the real one, so the wrapped
  function is not invoked again. A call that raises stores nothing.
\<close>

theorem cached_at_most_once:
  assumes "s2 = serve_all P between s1"
  shows "(get_all_expiration_dates P t s = (Inr es, s1) \<longrightarrow>
           get_all_expiration_dates P t s2 = (Inr es, s2) \<and>
           (\<forall>f. cache_data expirations_cache (\<lambda>m s. s\<lparr>expirations_cache := m\<rparr>) f t s2 = (Inr es, s2))) \<and>
         (get_options_chain P t e s = (Inr df, s1) \<longrightarrow>
           get_options_chain P t e s2 = (Inr df, s2) \<and>
           (\<forall>f. cache_data chain_cache (\<lambda>m s. s\<lparr>chain_cache := m\<rparr>) f (t, e) s2 = (Inr df, s2))) \<and>
         (get_valid_expirations P t s = (Inr vs, s1) \<longrightarrow>
           get_valid_expirations P t s2 = (Inr vs, s2) \<and>
           (\<forall>f. cache_data valid_cache (\<lambda>m s. s\<lparr>valid_cache := m\<rparr>) f t s2 = (Inr vs, s2))) \<and>
         (get_all_expiration_dates P t s = (Inl x, s1) \<longrightarrow>
           expirations_cache s1 = expirations_cache s) \<and>
         (get_options_chain P t e s = (Inl x, s1) \<longrightarrow> chain_cache s1 = chain_cache s) \<and>
         (get_valid_expirations P t s = (Inl x, s1) \<longrightarrow> valid_cache s1 = valid_cache s)"
proof -
  have g: "grows s1 s2"
    unfolding assms by (rule serve_all_grows)
  have "expirations_cache s2 t = Some es" if "get_all_expiration_dates P t s = (Inr es, s1)"
    using get_all_expiration_dates_stored [OF that] g unfolding grows_def by (metis map_le_Some)
  moreover
  have "chain_cache s2 (t, e) = Some df" if "get_options_chain P t e s = (Inr df, s1)"
    using get_options_chain_stored [OF that] g unfolding grows_def by (metis map_le_Some)
  moreover
  have "valid_cache s2 t = Some vs" if "get_valid_expirations P t s = (Inr vs, s1)"
    using get_valid_expirations_stored [OF that] g unfolding grows_def by (metis map_le_Some)
  moreover
  have "expirations_cache s1 = expirations_cache s"
    if "get_all_expiration_dates P t s = (Inl x, s1)"
    using that by (rule raise_stores_nothing(1))
  moreover
  have "chain_cache s1 = chain_cache s" if "get_options_chain P t e s = (Inl x, s1)"
    using that by (rule raise_stores_nothing(2))
  moreover
  have "valid_cache s1 = valid_cache s" if "get_valid_expirations P t s = (Inl x, s1)"
    using that by (rule raise_stores_nothing(3))
  ultimately show ?thesis
    by (simp add: get_all_expiration_dates_def get_options_chain_def get_valid_expirations_def
        cache_data_hit)
qed

lemmas run_defs = get_valid_expirations_def get_valid_expirations_wrapped_def cache_data_def
  get_all_expiration_dates_def get_all_expiration_dates_wrapped_def
  get_options_chain_def get_options_chain_wrapped_def normalize_def
  set_option_type_def set_expiration_date_def add_column_def has_open_interest_def
  column_def empty_def record_call_def new_session_def DataFrame_def int64_def Let_def

lemma example_listing:
  "get_all_expiration_dates example_provider ''AAPL'' new_session =
     (Inr [''2025-01-17'', ''2025-02-21''], listed_once)"
proof -
  have "fst (get_all_expiration_dates example_provider ''AAPL'' new_session) =
      Inr [''2025-01-17'', ''2025-02-21'']"
    by (simp add: run_defs example_provider_def)
  then show ?thesis
    by (simp add: listed_once_def prod_eq_iff)
qed

lemma example_fetch:
  "get_options_chain example_provider ''AAPL'' ''2025-02-21'' new_session =
     (Inr example_chain, fetched_once)"
proof -
  have "fst (get_options_chain example_provider ''AAPL'' ''2025-02-21'' new_session) =
      Inr example_chain"
    by (simp add: run_defs example_provider_def example_reply_def example_chain_def
        contract_def quote_def)
  then show ?thesis
    by (simp add: fetched_once_def prod_eq_iff)
qed

theorem cached_at_most_once_witness:
  "get_all_expiration_dates example_provider ''AAPL'' new_session =
     (Inr [''2025-01-17'', ''2025-02-21''], listed_once) \<and>
   get_all_expiration_dates example_provider ''AAPL''
     (serve_all example_provider later_requests listed_once) =
     (Inr [''2025-01-17'', ''2025-02-21''], serve_all example_provider later_requests listed_once) \<and>
   get_options_chain example_provider ''AAPL'' ''2025-02-21'' new_session =
     (Inr example_chain, fetched_once) \<and>
   get_options_chain example_provider ''AAPL'' ''2025-02-21''
     (serve_all example_provider later_requests fetched_once) =
     (Inr example_chain, serve_all example_provider later_requests fetched_once) \<and>
   get_valid_expirations example_provider ''AAPL'' new_session =
     (Inr [''2025-02-21''], validated) \<and>
   get_valid_expirations example_provider ''AAPL''
     (serve_all example_provider later_requests validated) =
     (Inr [''2025-02-21''], serve_all example_provider later_requests validated) \<and>
   fst (get_all_expiration_dates flaky_provider ''AAPL'' new_session) = Inl ProviderError \<and>
   expirations_cache (snd (get_all_expiration_dates flaky_provider ''AAPL'' new_session)) =
     expirations_cache (new_session :: unit session)"
proof -
  have raised: "fst (get_all_expiration_dates flaky_provider ''AAPL'' new_session) =
      Inl ProviderError"
    by (simp add: run_defs flaky_provider_def)
  then have flaky: "get_all_expiration_dates flaky_provider ''AAPL'' new_session =
      (Inl ProviderError, snd (get_all_expiration_dates flaky_provider ''AAPL'' new_session))"
    by (simp add: prod_eq_iff)
  note a = cached_at_most_once [OF refl, where P = example_provider and between = later_requests
        and ?s1.0 = listed_once and t = "''AAPL''" and s = new_session
        and es = "[''2025-01-17'', ''2025-02-21'']" and e = "''2025-02-21''"
        and df = example_chain and vs = "[''2025-02-21'']" and x = ProviderError]
  note b = cached_at_most_once [OF refl, where P = example_provider and between = later_requests
        and ?s1.0 = fetched_once and t = "''AAPL''" and s = new_session
        and es = "[''2025-01-17'', ''2025-02-21'']" and e = "''2025-02-21''"
        and df = example_chain and vs = "[''2025-02-21'']" and x = ProviderError]
  note c = cached_at_most_once [OF refl, where P = example_provider and between = later_requests
        and ?s1.0 = validated and t = "''AAPL''" and s = new_session
        and es = "[''2025-01-17'', ''2025-02-21'']" and e = "''2025-02-21''"
        and df = example_chain and vs = "[''2025-02-21'']" and x = ProviderError]
  note d = cached_at_most_once [OF refl, where P = flaky_provider and between = "[]"
        and ?s1.0 = "snd (get_all_expiration_dates flaky_provider ''AAPL'' new_session)"
        and t = "''AAPL''" and s = new_session
        and es = "[''2025-01-17'', ''2025-02-21'']" and e = "''2025-02-21''"
        and df = example_chain and vs = "[''2025-02-21'']" and x = ProviderError]
  from a example_listing
  have "get_all_expiration_dates example_provider ''AAPL''
     (serve_all example_provider later_requests listed_once) =
     (Inr [''2025-01-17'', ''2025-02-21''], serve_all example_provider later_requests listed_once)"
    by blast
  moreover from b example_fetch
  have "get_options_chain example_provider ''AAPL'' ''2025-02-21''
     (serve_all example_provider later_requests fetched_once) =
     (Inr example_chain, serve_all example_provider later_requests fetched_once)"
    by blast
  moreover from c example_validation
  have "get_valid_expirations example_provider ''AAPL''
     (serve_all example_provider later_requests validated) =
     (Inr [''2025-02-21''], serve_all example_provider later_requests validated)"
    by blast
  moreover from d flaky
  have "expirations_cache (snd (get_all_expiration_dates flaky_provider ''AAPL'' new_session)) =
     expirations_cache (new_session :: unit session)"
    by blast
  ultimately show ?thesis
    using example_listing example_fetch example_validation raised by blast
qed

text \<open>
  A key whose call raised is computed again: with the flaky provider the first listing
  of the ticker raises, and the second call with the same key builds the handle and
  asks the provider again, and returns something else.
\<close>

theorem cached_at_most_once_counterexample:
  "fst (get_all_expiration_dates flaky_provider ''AAPL'' new_session) = Inl ProviderError \<and>
   fst (get_all_expiration_dates flaky_provider ''AAPL''
          (snd (get_all_expiration_dates flaky_provider ''AAPL'' new_session))) =
     Inr [''2025-01-17'', ''2025-02-21''] \<and>
   io (snd (get_all_expiration_dates flaky_provider ''AAPL''
          (snd (get_all_expiration_dates flaky_provider ''AAPL'' new_session)))) =
     [NewTicker ''AAPL'', NewTicker ''AAPL'', Options ''AAPL'']"
  by (simp add: run_defs flaky_provider_def)

section \<open>Order of the valid expirations\<close>

lemma fetched_append: "fetched (xs @ ys) = fetched xs @ fetched ys"
  by (induction xs rule: fetched.induct) simp_all

lemma get_options_chain_io:
  assumes "get_options_chain P t e s = (r, s')"
  shows "\<exists>new. io s' = io s @ new \<and> (fetched new = [] \<or> fetched new = [e])"
  using get_options_chain_cases [OF assms]
  by (auto simp: record_call_simps)

lemma get_all_expiration_dates_io:
  assumes "get_all_expiration_dates P t s = (r, s')"
  shows "\<exists>new. io s' = io s @ new \<and> fetched new = []"
  using get_all_expiration_dates_cases [OF assms]
  by (auto simp: record_call_simps)

lemma valid_loop_io:
  assumes "valid_loop P t es acc s = (r, s')"
  shows "\<exists>new. io s' = io s @ new \<and> subseq (fetched new) es"
  using assms
proof (induction es arbitrary: acc s)
  case Nil
  then show ?case by simp
next
  case (Cons e es)
  obtain r1 s1 where g: "get_options_chain P t e s = (r1, s1)"
    by (cases "get_options_chain P t e s")
  from get_options_chain_io [OF g] obtain n1 where n1: "io s1 = io s @ n1"
    and f1: "fetched n1 = [] \<or> fetched n1 = [e]" by blast
  from f1 have sub1: "subseq (fetched n1) (e # es)" by auto
  show ?case
  proof (cases r1)
    case (Inl x)
    with Cons.prems g have "s' = s1" by simp
    with n1 sub1 show ?thesis by blast
  next
    case (Inr df)
    show ?thesis
    proof (cases "has_open_interest df")
      case (Inl x)
      with Cons.prems g Inr have "s' = s1" by simp
      with n1 sub1 show ?thesis by blast
    next
      case b: (Inr b)
      from Cons.prems g Inr b
      have "valid_loop P t es (if b then acc @ [e] else acc) s1 = (r, s')" by simp
      from Cons.IH [OF this] obtain n2 where n2: "io s' = io s1 @ n2"
        and f2: "subseq (fetched n2) es" by blast
      from f1 f2 have "subseq (fetched (n1 @ n2)) (e # es)"
        by (auto simp: fetched_append)
      with n1 n2 show ?thesis by auto
    qed
  qed
qed

lemma get_valid_expirations_io:
  assumes "get_valid_expirations P t s = (Inr vs, s')" and "expirations_cache s' t = Some es"
  shows "\<exists>new. io s' = io s @ new \<and> subseq (fetched new) es"
  using get_valid_expirations_cases [OF assms(1)]
proof (elim disjE conjE exE)
  fix vs' assume "s' = s"
  then show ?thesis by simp
next
  fix x :: error assume "Inr vs = Inl x"
  then show ?thesis by simp
next
  fix vs' s1
  assume w: "get_valid_expirations_wrapped P t s = (Inr vs', s1)"
    and s': "s' = s1\<lparr>valid_cache := (valid_cache s1)(t \<mapsto> vs')\<rparr>"
  obtain r0 s0 where a: "get_all_expiration_dates P t s = (r0, s0)"
    by (cases "get_all_expiration_dates P t s")
  with w obtain es0 where r0: "r0 = Inr es0"
    by (cases r0) (auto simp: get_valid_expirations_wrapped_def)
  with w a have l: "valid_loop P t es0 [] s0 = (Inr vs', s1)"
    by (simp add: get_valid_expirations_wrapped_def)
  have "expirations_cache s0 t = Some es0"
    using a r0 by (simp add: get_all_expiration_dates_stored)
  with valid_loop_frame [OF l] s' assms(2) have "es0 = es" by simp
  from get_all_expiration_dates_io [OF a] obtain n0 where n0: "io s0 = io s @ n0"
    and f0: "fetched n0 = []" by blast
  from valid_loop_io [OF l] obtain n1 where n1: "io s1 = io s0 @ n1"
    and f1: "subseq (fetched n1) es0" by blast
  from n0 n1 s' have "io s' = io s @ (n0 @ n1)" by simp
  moreover from f0 f1 \<open>es0 = es\<close> have "subseq (fetched (n0 @ n1)) es"
    by (simp add: fetched_append)
  ultimately show ?thesis by blast
qed

text \<open>
  Claim C8. In a coherent session, the list returned by \<^verbatim>\<open>get_valid_expirations\<close> is a
  subsequence of the list \<^verbatim>\<open>get_all_expiration_dates\<close> returns for the same ticker (read
  in the session the call leaves behind): it is that list filtered, so the order is
  kept. The chains requested from the provider during the call are requested in the
  order of that list.
\<close>

theorem valid_expirations_subsequence:
  assumes "coherent s" and "get_valid_expirations P ticker_symbol s = (Inr vs, s')"
  shows "\<exists>es new. get_all_expiration_dates P ticker_symbol s' = (Inr es, s') \<and>
           subseq vs es \<and> (\<exists>keep. vs = filter keep es) \<and>
           io s' = io s @ new \<and> subseq (fetched new) es"
proof -
  have c: "coherent s'"
    using assms by (rule get_valid_expirations_coherent)
  have "valid_cache s' ticker_symbol = Some vs"
    using assms(2) by (rule get_valid_expirations_stored)
  with c obtain es where es: "expirations_cache s' ticker_symbol = Some es"
    and vs: "vs = filter (stored_valid s' ticker_symbol) es"
    unfolding coherent_def by metis
  have "get_all_expiration_dates P ticker_symbol s' = (Inr es, s')"
    using es by (simp add: get_all_expiration_dates_def cache_data_hit)
  moreover have "subseq vs es"
    unfolding vs by (rule subseq_filter_left)
  moreover from get_valid_expirations_io [OF assms(2) es]
  obtain new where "io s' = io s @ new" and "subseq (fetched new) es" by blast
  ultimately show ?thesis using vs by blast
qed

lemma validated_io:
  "io validated = [NewTicker ''AAPL'', Options ''AAPL'', NewTicker ''AAPL'',
     OptionChain ''AAPL'' ''2025-01-17'', NewTicker ''AAPL'', OptionChain ''AAPL'' ''2025-02-21'']"
  by (simp add: validated_def run_defs example_provider_def)

theorem valid_expirations_subsequence_witness:
  "coherent (new_session :: unit session) \<and>
   get_valid_expirations example_provider ''AAPL'' new_session = (Inr [''2025-02-21''], validated) \<and>
   (\<exists>es new. get_all_expiration_dates example_provider ''AAPL'' validated = (Inr es, validated) \<and>
      subseq [''2025-02-21''] es \<and> (\<exists>keep. [''2025-02-21''] = filter keep es) \<and>
      io validated = io (new_session :: unit session) @ new \<and> subseq (fetched new) es)"
  using valid_expirations_subsequence [OF coherent_new_session example_validation]
    coherent_new_session example_validation by blast


section \<open>The chain normalizer\<close>

lemma rows_normalize:
  "rows (normalize e oc) =
     map (\<lambda>r. r\<lparr>option_type := ''Call'', expiration_date := e\<rparr>) (calls oc) @
     map (\<lambda>r. r\<lparr>option_type := ''Put'', expiration_date := e\<rparr>) (puts oc)"
  by (simp add: normalize_def set_option_type_def set_expiration_date_def Let_def)

lemma columns_normalize:
  "set (columns (normalize e oc)) = {''option_type'', ''expiration_date''} \<union> set (labels oc)"
  by (auto simp: normalize_def set_option_type_def set_expiration_date_def add_column_def Let_def)

lemma get_options_chain_miss:
  assumes "chain_cache s (t, e) = None" and "Ticker P (io s) t = Inr u"
  shows "get_options_chain P t e s =
     (let df = (case option_chain P (io s @ [NewTicker t]) t e of
                  Inl _ \<Rightarrow> DataFrame | Inr oc \<Rightarrow> normalize e oc);
          s2 = record_call (OptionChain t e) (record_call (NewTicker t) s)
      in (Inr df, s2\<lparr>chain_cache := (chain_cache s)((t, e) \<mapsto> df)\<rparr>))"
  using assms
  by (simp add: get_options_chain_def cache_data_def get_options_chain_wrapped_def Let_def
      record_call_simps split: sum.splits)

lemma get_all_expiration_dates_miss:
  assumes "expirations_cache s t = None" and "Ticker P (io s) t = Inr u"
  shows "get_all_expiration_dates P t s =
     (let es = (case options P (io s @ [NewTicker t]) t of Inl _ \<Rightarrow> [] | Inr es \<Rightarrow> es);
          s2 = record_call (Options t) (record_call (NewTicker t) s)
      in (Inr es, s2\<lparr>expirations_cache := (expirations_cache s)(t \<mapsto> es)\<rparr>))"
  using assms
  by (simp add: get_all_expiration_dates_def cache_data_def get_all_expiration_dates_wrapped_def
      Let_def record_call_simps split: sum.splits)

text \<open>
  Claim C3. When the chain is not stored yet, the handle is built and the provider
  answers with \<open>c\<close> call rows and \<open>p\<close> put rows, \<^verbatim>\<open>get_options_chain\<close> returns a table of
  \<open>c + p\<close> rows: row \<open>i\<close> for \<open>i < c\<close> is call row \<open>i\<close> tagged Call, row \<open>c + j\<close> for
  \<open>j < p\<close> is put row \<open>j\<close> tagged Put, and every row is stamped with the requested
  expiration and otherwise left as it came. So calls precede puts, each side keeps its
  order, and no row is dropped or duplicated. The labels are those of the provider
  together with \<^verbatim>\<open>option_type\<close> and \<^verbatim>\<open>expiration_date\<close>.
\<close>

theorem normalizer_conserves_rows:
  assumes "chain_cache s (ticker_symbol, expiration) = None"
    and "Ticker P (io s) ticker_symbol = Inr u"
    and "option_chain P (io s @ [NewTicker ticker_symbol]) ticker_symbol expiration = Inr oc"
  shows "\<exists>df s'. get_options_chain P ticker_symbol expiration s = (Inr df, s') \<and>
           length (rows df) = length (calls oc) + length (puts oc) \<and>
           (\<forall>i<length (calls oc).
              rows df ! i = (calls oc ! i)\<lparr>option_type := ''Call'', expiration_date := expiration\<rparr>) \<and>
           (\<forall>j<length (puts oc).
              rows df ! (length (calls oc) + j) =
                (puts oc ! j)\<lparr>option_type := ''Put'', expiration_date := expiration\<rparr>) \<and>
           set (columns df) = {''option_type'', ''expiration_date''} \<union> set (labels oc)"
proof -
  define df where "df = normalize expiration oc"
  have "\<exists>s'. get_options_chain P ticker_symbol expiration s = (Inr df, s')"
    using get_options_chain_miss [OF assms(1,2)] assms(3) by (simp add: df_def Let_def)
  moreover have "length (rows df) = length (calls oc) + length (puts oc)"
    by (simp add: df_def rows_normalize)
  moreover have "rows df ! i =
      (calls oc ! i)\<lparr>option_type := ''Call'', expiration_date := expiration\<rparr>"
    if "i < length (calls oc)" for i
    using that by (simp add: df_def rows_normalize nth_append)
  moreover have "rows df ! (length (calls oc) + j) =
      (puts oc ! j)\<lparr>option_type := ''Put'', expiration_date := expiration\<rparr>"
    if "j < length (puts oc)" for j
    using that by (simp add: df_def rows_normalize nth_append)
  moreover have "set (columns df) = {''option_type'', ''expiration_date''} \<union> set (labels oc)"
    by (simp add: df_def columns_normalize)
  ultimately show ?thesis by blast
qed


theorem normalizer_conserves_rows_witness:
  "chain_cache (new_session :: unit session) (''AAPL'', ''2025-02-21'') = None \<and>
   Ticker example_provider (io (new_session :: unit session)) ''AAPL'' = Inr () \<and>
   option_chain example_provider (io (new_session :: unit session) @ [NewTicker ''AAPL''])
     ''AAPL'' ''2025-02-21'' = Inr example_reply \<and>
   get_options_chain example_provider ''AAPL'' ''2025-02-21'' new_session =
     (Inr example_chain, fetched_once) \<and>
   length (rows example_chain) = length (calls example_reply) + length (puts example_reply) \<and>
   rows example_chain ! 0 =
     (calls example_reply ! 0)\<lparr>option_type := ''Call'', expiration_date := ''2025-02-21''\<rparr> \<and>
   rows example_chain ! (length (calls example_reply) + 0) =
     (puts example_reply ! 0)\<lparr>option_type := ''Put'', expiration_date := ''2025-02-21''\<rparr> \<and>
   set (columns example_chain) =
     {''option_type'', ''expiration_date''} \<union> set (labels example_reply)"
proof -
  have a: "chain_cache (new_session :: unit session) (''AAPL'', ''2025-02-21'') = None"
    by (simp add: new_session_def)
  have b: "Ticker example_provider (io (new_session :: unit session)) ''AAPL'' = Inr ()"
    by (simp add: example_provider_def)
  have c: "option_chain example_provider (io (new_session :: unit session) @ [NewTicker ''AAPL''])
     ''AAPL'' ''2025-02-21'' = Inr example_reply"
    by (simp add: example_provider_def)
  have d: "0 < length (calls example_reply)" "0 < length (puts example_reply)"
    by (simp_all add: example_reply_def)
  from normalizer_conserves_rows [OF a b c] a b c d example_fetch show ?thesis
    by auto
qed


section \<open>Empty fetches\<close>

lemma empty_DataFrame: "empty DataFrame"
  by (simp add: empty_def DataFrame_def)

lemma empty_normalize: "calls oc = [] \<Longrightarrow> puts oc = [] \<Longrightarrow> empty (normalize e oc)"
  by (simp add: empty_def rows_normalize)

lemma fetch_stays_empty:
  assumes tk: "\<forall>l. Ticker P l t = Inr ()"
    and oc: "\<forall>l e. case option_chain P l t e of Inl _ \<Rightarrow> True
                    | Inr oc \<Rightarrow> calls oc = [] \<and> puts oc = []"
    and st: "\<forall>e df. chain_cache s (t, e) = Some df \<longrightarrow> empty df"
  shows "\<exists>df s'. get_options_chain P t e s = (Inr df, s') \<and> empty df \<and>
           (\<forall>e df. chain_cache s' (t, e) = Some df \<longrightarrow> empty df)"
proof (cases "chain_cache s (t, e)")
  case (Some df)
  with st show ?thesis
    by (auto simp: get_options_chain_def cache_data_hit)
next
  case None
  define df where "df = (case option_chain P (io s @ [NewTicker t]) t e of
      Inl _ \<Rightarrow> DataFrame | Inr oc \<Rightarrow> normalize e oc)"
  have e: "empty df"
    using oc [rule_format, of "io s @ [NewTicker t]" e]
    by (auto simp: df_def empty_DataFrame empty_normalize split: sum.splits)
  have "Ticker P (io s) t = Inr ()" using tk by simp
  from get_options_chain_miss [OF None this]
  have "get_options_chain P t e s =
      (Inr df, (record_call (OptionChain t e) (record_call (NewTicker t) s))
         \<lparr>chain_cache := (chain_cache s)((t, e) \<mapsto> df)\<rparr>)"
    by (simp add: df_def Let_def)
  with e st show ?thesis by (auto simp: record_call_simps)
qed

lemma valid_loop_all_empty:
  assumes tk: "\<forall>l. Ticker P l t = Inr ()"
    and oc: "\<forall>l e. case option_chain P l t e of Inl _ \<Rightarrow> True
                    | Inr oc \<Rightarrow> calls oc = [] \<and> puts oc = []"
    and st: "\<forall>e df. chain_cache s (t, e) = Some df \<longrightarrow> empty df"
  shows "\<exists>s'. valid_loop P t es acc s = (Inr acc, s')"
  using st
proof (induction es arbitrary: s)
  case Nil
  show ?case by simp
next
  case (Cons e es)
  from fetch_stays_empty [OF tk oc Cons.prems, of e]
  obtain df s1 where g: "get_options_chain P t e s = (Inr df, s1)" and e: "empty df"
    and st1: "\<forall>e df. chain_cache s1 (t, e) = Some df \<longrightarrow> empty df" by blast
  from Cons.IH [OF st1] obtain s' where "valid_loop P t es acc s1 = (Inr acc, s')" by blast
  with g e show ?case
    by (simp add: has_open_interest_empty)
qed

lemma listing_returns:
  assumes "Ticker P (io s) t = Inr u"
  shows "\<exists>es s'. get_all_expiration_dates P t s = (Inr es, s') \<and> chain_cache s' = chain_cache s"
proof (cases "expirations_cache s t")
  case None
  from get_all_expiration_dates_miss [OF None assms] show ?thesis
    by (simp add: Let_def record_call_simps)
next
  case (Some es)
  then show ?thesis
    by (simp add: get_all_expiration_dates_def cache_data_hit)
qed

text \<open>
  Claim C10. When the handle of the ticker can be built, every chain request to the
  provider raises or yields no rows, and the chains already stored for the ticker are
  empty, \<^verbatim>\<open>get_valid_expirations\<close> returns the empty list: it does not raise. The loop
  condition is false on every empty table without reading the \<^verbatim>\<open>openInterest\<close> column,
  a read that raises \<^verbatim>\<open>KeyError\<close> on the table \<^verbatim>\<open>pd.DataFrame()\<close>.
\<close>

theorem valid_expirations_total_on_empty:
  assumes "\<forall>l. Ticker P l ticker_symbol = Inr ()"
    and "\<forall>l e. case option_chain P l ticker_symbol e of Inl _ \<Rightarrow> True
                | Inr oc \<Rightarrow> calls oc = [] \<and> puts oc = []"
    and "coherent s"
    and "\<forall>e df. chain_cache s (ticker_symbol, e) = Some df \<longrightarrow> empty df"
  shows "(\<exists>s'. get_valid_expirations P ticker_symbol s = (Inr [], s')) \<and>
         (\<forall>df :: 'x frame. empty df \<longrightarrow> has_open_interest df = Inr False) \<and>
         column ''openInterest'' openInterest (DataFrame :: 'x frame) =
           Inl (KeyError ''openInterest'')"
proof (intro conjI)
  show "\<exists>s'. get_valid_expirations P ticker_symbol s = (Inr [], s')"
  proof (cases "valid_cache s ticker_symbol")
    case (Some vs)
    with assms(3) obtain es where "vs = filter (stored_valid s ticker_symbol) es"
      unfolding coherent_def by metis
    moreover have "\<not> stored_valid s ticker_symbol e" for e
      using assms(4) by (auto simp: stored_valid_def has_open_interest_empty)
    ultimately have "vs = []" by simp
    with Some show ?thesis
      by (simp add: get_valid_expirations_def cache_data_hit)
  next
    case None
    from assms(1) have "Ticker P (io s) ticker_symbol = Inr ()" by simp
    from listing_returns [OF this]
    obtain es s0 where a: "get_all_expiration_dates P ticker_symbol s = (Inr es, s0)"
      and "chain_cache s0 = chain_cache s" by blast
    with assms(4) have "\<forall>e df. chain_cache s0 (ticker_symbol, e) = Some df \<longrightarrow> empty df"
      by simp
    from valid_loop_all_empty [OF assms(1,2) this]
    obtain s1 where "valid_loop P ticker_symbol es [] s0 = (Inr [], s1)" by blast
    with a None show ?thesis
      by (simp add: get_valid_expirations_def cache_data_def get_valid_expirations_wrapped_def)
  qed
  show "\<forall>df :: 'x frame. empty df \<longrightarrow> has_open_interest df = Inr False"
    by (simp add: has_open_interest_empty)
  show "column ''openInterest'' openInterest (DataFrame :: 'x frame) =
      Inl (KeyError ''openInterest'')"
    by (simp add: column_def DataFrame_def)
qed

theorem valid_expirations_total_on_empty_witness:
  "fst (get_all_expiration_dates offline_provider ''AAPL'' new_session) =
     Inr [''2025-01-17'', ''2025-02-21''] \<and>
   fst (get_options_chain offline_provider ''AAPL'' ''2025-01-17'' new_session) = Inr DataFrame \<and>
   Ticker offline_provider [] ''AAPL'' = Inr () \<and>
   option_chain offline_provider [NewTicker ''AAPL''] ''AAPL'' ''2025-01-17'' = Inl ProviderError \<and>
   coherent (new_session :: unit session) \<and>
   chain_cache (new_session :: unit session) (''AAPL'', ''2025-01-17'') = None \<and>
   (\<exists>s'. get_valid_expirations offline_provider ''AAPL'' new_session = (Inr [], s'))"
proof -
  have a: "\<forall>l. Ticker offline_provider l ''AAPL'' = Inr ()"
    by (simp add: offline_provider_def)
  have b: "\<forall>l e. case option_chain offline_provider l ''AAPL'' e of Inl _ \<Rightarrow> True
           | Inr oc \<Rightarrow> calls oc = [] \<and> puts oc = []"
    by (simp add: offline_provider_def)
  have c: "\<forall>e df. chain_cache (new_session :: unit session) (''AAPL'', e) = Some df \<longrightarrow> empty df"
    by (simp add: new_session_def)
  have d: "fst (get_all_expiration_dates offline_provider ''AAPL'' new_session) =
     Inr [''2025-01-17'', ''2025-02-21'']"
    by (simp add: run_defs offline_provider_def)
  have e: "fst (get_options_chain offline_provider ''AAPL'' ''2025-01-17'' new_session) =
     Inr DataFrame"
    by (simp add: run_defs offline_provider_def)
  have f: "option_chain offline_provider [NewTicker ''AAPL''] ''AAPL'' ''2025-01-17'' =
      Inl ProviderError"
    "chain_cache (new_session :: unit session) (''AAPL'', ''2025-01-17'') = None"
    by (simp_all add: offline_provider_def new_session_def)
  from valid_expirations_total_on_empty [OF a b coherent_new_session c] a d e f
    coherent_new_session
  show ?thesis by blast
qed

section \<open>Failures at the gateway\<close>

text \<open>
  A failure of \<^verbatim>\<open>ticker.options\<close> or of \<^verbatim>\<open>ticker.option_chain\<close> is caught: the gateway
  returns the empty list or the empty table. The only exception a gateway function lets
  through is one raised while the handle is built.
\<close>

lemma listing_failure_is_soft:
  assumes "expirations_cache s t = None" and "Ticker P (io s) t = Inr u"
    and "options P (io s @ [NewTicker t]) t = Inl x"
  shows "fst (get_all_expiration_dates P t s) = Inr []"
  using get_all_expiration_dates_miss [OF assms(1,2)] assms(3) by (simp add: Let_def)

lemma fetch_failure_is_soft:
  assumes "chain_cache s (t, e) = None" and "Ticker P (io s) t = Inr u"
    and "option_chain P (io s @ [NewTicker t]) t e = Inl x"
  shows "fst (get_options_chain P t e s) = Inr DataFrame"
  using get_options_chain_miss [OF assms(1,2)] assms(3) by (simp add: Let_def)

lemma gateway_raises_only_from_handle:
  "get_all_expiration_dates P t s = (Inl x, s') \<Longrightarrow> Ticker P (io s) t = Inl x"
  "get_options_chain P t e s = (Inl x, s') \<Longrightarrow> Ticker P (io s) t = Inl x"
  by (auto simp: get_all_expiration_dates_def get_all_expiration_dates_wrapped_def
      get_options_chain_def get_options_chain_wrapped_def cache_data_def Let_def
      split: option.splits sum.splits)

lemma handle_failure_not_caught:
  "expirations_cache s t = None \<Longrightarrow> Ticker P (io s) t = Inl x \<Longrightarrow>
     fst (get_all_expiration_dates P t s) = Inl x"
  "chain_cache s (t, e) = None \<Longrightarrow> Ticker P (io s) t = Inl x \<Longrightarrow>
     fst (get_options_chain P t e s) = Inl x"
  by (simp_all add: get_all_expiration_dates_def get_all_expiration_dates_wrapped_def
      get_options_chain_def get_options_chain_wrapped_def cache_data_def)

text \<open>
  Claim C6 says that no provider failure reaches the caller of the gateway. The handle
  \<^verbatim>\<open>yf.Ticker(ticker_symbol)\<close> is built before the \<^verbatim>\<open>try\<close> block is entered, in both gateway
  functions. With a provider whose handle cannot be built, \<^verbatim>\<open>get_all_expiration_dates\<close>
  and \<^verbatim>\<open>get_options_chain\<close> return the exception instead of an empty result, and so does
  \<^verbatim>\<open>get_valid_expirations\<close>, which calls them.
\<close>

theorem handle_failure_propagates:
  "fst (get_all_expiration_dates unreachable_provider ''US0378331005'' new_session) =
     Inl ProviderError \<and>
   fst (get_options_chain unreachable_provider ''US0378331005'' ''2025-01-17'' new_session) =
     Inl ProviderError \<and>
   fst (get_valid_expirations unreachable_provider ''US0378331005'' new_session) =
     Inl ProviderError"
  by (simp add: run_defs unreachable_provider_def)

section \<open>Derived fields\<close>

lemma mask_rows_map:
  "mask_rows (map p (map f (rows df))) df = \<lparr>columns = columns df, rows = filter (\<lambda>r. p (f r)) (rows df)\<rparr>"
proof -
  have "map fst (filter snd (zip xs (map p (map f xs)))) = filter (\<lambda>r. p (f r)) xs" for xs :: "'a row list"
    by (induction xs) simp_all
  then show ?thesis by (simp add: mask_rows_def)
qed

lemma mask_rows_filter:
  "mask_rows (map q (rows df)) df = \<lparr>columns = columns df, rows = filter q (rows df)\<rparr>"
  using mask_rows_map [of q "\<lambda>r. r" df] by simp

lemma group_shift_length: "length (group_shift seen rs) = length rs"
  by (induction rs arbitrary: seen) simp_all


lemma shifted_length: "length (shifted a xs) = length xs"
  by (induction xs arbitrary: a) simp_all


lemma filter_zip_map:
  "filter (\<lambda>r. p r) (map (\<lambda>(r, v). g r v) (zip rs vs)) =
     map (\<lambda>(r, v). g r v) (filter (\<lambda>(r, v). p (g r v)) (zip rs vs))"
  by (induction rs arbitrary: vs) (auto simp: filter_map comp_def split_def)


lemma change_column_rows:
  "map (\<lambda>(r, v). r\<lparr>change_in_OI := v\<rparr>)
     (zip rs (map (\<lambda>(a, b). int64 (a - b))
        (zip (map openInterest rs) (map prev_openInterest rs)))) =
   map (\<lambda>r. r\<lparr>change_in_OI := int64 (openInterest r - prev_openInterest r)\<rparr>) rs"
  by (induction rs) simp_all

lemma map_zip_own_column:
  "map (\<lambda>(r, p). f r p) (zip rs (map g rs)) = map (\<lambda>r. f r (g r)) rs"
  by (induction rs) simp_all


text \<open>
  The function in two steps: the previous open interest is provided first, then the
  change is written and the figure drawn.
\<close>

lemma write_change_in_OI:
  assumes "''openInterest'' \<in> set (columns df1)" and "''prev_openInterest'' \<in> set (columns df1)"
  shows "plot_change_in_open_interest barplot df =
           (case ensure_prev_openInterest df of
              Inl x \<Rightarrow> (Inl x, df)
            | Inr d \<Rightarrow> plot_change_in_open_interest barplot d) \<and>
         (ensure_prev_openInterest df1 = Inr df1 \<longrightarrow>
            plot_change_in_open_interest barplot df1 =
              (let df2 = \<lparr>columns = add_column ''change_in_OI'' (columns df1),
                          rows = map (\<lambda>r. r\<lparr>change_in_OI :=
                                   int64 (openInterest r - prev_openInterest r)\<rparr>) (rows df1)\<rparr>
               in (case barplot (nonzero_changes df2) of
                     Some x \<Rightarrow> Inl x | None \<Rightarrow> Inr (nonzero_changes df2), df2)))"
proof
  show "plot_change_in_open_interest barplot df =
           (case ensure_prev_openInterest df of
              Inl x \<Rightarrow> (Inl x, df)
            | Inr d \<Rightarrow> plot_change_in_open_interest barplot d)"
  proof (cases "''prev_openInterest'' \<in> set (columns df)")
    case True
    then show ?thesis by (simp add: ensure_prev_openInterest_def)
  next
    case False
    show ?thesis
    proof (cases "ensure_prev_openInterest df")
      case (Inl x)
      then show ?thesis by (simp add: plot_change_in_open_interest_def)
    next
      case (Inr d)
      with False have "''prev_openInterest'' \<in> set (columns d)"
        by (auto simp: ensure_prev_openInterest_def set_prev_openInterest_def add_column_def
            split: if_splits)
      then have "ensure_prev_openInterest d = Inr d"
        by (simp add: ensure_prev_openInterest_def)
      with Inr show ?thesis by (simp add: plot_change_in_open_interest_def)
    qed
  qed
  show "ensure_prev_openInterest df1 = Inr df1 \<longrightarrow>
            plot_change_in_open_interest barplot df1 =
              (let df2 = \<lparr>columns = add_column ''change_in_OI'' (columns df1),
                          rows = map (\<lambda>r. r\<lparr>change_in_OI :=
                                   int64 (openInterest r - prev_openInterest r)\<rparr>) (rows df1)\<rparr>
               in (case barplot (nonzero_changes df2) of
                     Some x \<Rightarrow> Inl x | None \<Rightarrow> Inr (nonzero_changes df2), df2))"
  proof
    assume e: "ensure_prev_openInterest df1 = Inr df1"
    define df2 where "df2 = set_change_in_OI
      (map (\<lambda>(a, b). int64 (a - b))
         (zip (map openInterest (rows df1)) (map prev_openInterest (rows df1)))) df1"
    have c2: "''change_in_OI'' \<in> set (columns df2)"
      by (simp add: df2_def set_change_in_OI_def add_column_def)
    have shape: "df2 = \<lparr>columns = add_column ''change_in_OI'' (columns df1),
        rows = map (\<lambda>r. r\<lparr>change_in_OI :=
                 int64 (openInterest r - prev_openInterest r)\<rparr>) (rows df1)\<rparr>"
      by (simp add: df2_def set_change_in_OI_def change_column_rows)
    have sel: "mask_rows (map ((\<lambda>c. c \<noteq> 0) \<circ> change_in_OI) (rows df2)) df2 = nonzero_changes df2"
      by (simp add: mask_rows_filter nonzero_changes_def comp_def)
    have "plot_change_in_open_interest barplot df1 =
        (case barplot (nonzero_changes df2) of
           Some x \<Rightarrow> Inl x | None \<Rightarrow> Inr (nonzero_changes df2), df2)"
      using e assms c2
      by (simp add: plot_change_in_open_interest_def column_def Let_def df2_def [symmetric] sel
          split: option.split)
    then show "plot_change_in_open_interest barplot df1 =
              (let df2 = \<lparr>columns = add_column ''change_in_OI'' (columns df1),
                          rows = map (\<lambda>r. r\<lparr>change_in_OI :=
                                   int64 (openInterest r - prev_openInterest r)\<rparr>) (rows df1)\<rparr>
               in (case barplot (nonzero_changes df2) of
                     Some x \<Rightarrow> Inl x | None \<Rightarrow> Inr (nonzero_changes df2), df2))"
      unfolding Let_def shape [symmetric] .
  qed
qed


text \<open>
  When the columns it reads are there, the function writes \<open>derived_table\<close> and hands
  \<open>nonzero_changes\<close> of it to the plotting library; otherwise it raises \<^verbatim>\<open>KeyError\<close>
  before writing. Writing a written table again changes nothing more.
\<close>

lemma plot_change_runs:
  assumes oi: "''openInterest'' \<in> set (columns df)"
    and pk: "''prev_openInterest'' \<in> set (columns df) \<or> ''strike'' \<in> set (columns df)"
  shows "plot_change_in_open_interest barplot df =
           (case barplot (nonzero_changes (derived_table df)) of
              Some x \<Rightarrow> Inl x | None \<Rightarrow> Inr (nonzero_changes (derived_table df)),
            derived_table df)"
proof (cases "''prev_openInterest'' \<in> set (columns df)")
  case True
  then have e: "ensure_prev_openInterest df = Inr df"
    by (simp add: ensure_prev_openInterest_def)
  have "\<lparr>columns = add_column ''change_in_OI'' (columns df),
         rows = map (\<lambda>r. r\<lparr>change_in_OI :=
                  int64 (openInterest r - prev_openInterest r)\<rparr>) (rows df)\<rparr> = derived_table df"
    using True by (simp add: derived_table_def add_column_def map_zip_own_column)
  with write_change_in_OI [OF oi True, of barplot df, THEN conjunct2, rule_format, OF e]
  show ?thesis by (simp add: Let_def)
next
  case False
  with pk have st: "''strike'' \<in> set (columns df)" by simp
  define df1 where "df1 = set_prev_openInterest (group_shift Map.empty (rows df)) df"
  have e: "ensure_prev_openInterest df = Inr df1"
    using False st oi by (simp add: ensure_prev_openInterest_def df1_def)
  have oi1: "''openInterest'' \<in> set (columns df1)" and p1: "''prev_openInterest'' \<in> set (columns df1)"
    using oi by (simp_all add: df1_def set_prev_openInterest_def add_column_def)
  have e1: "ensure_prev_openInterest df1 = Inr df1"
    using p1 by (simp add: ensure_prev_openInterest_def)
  have "rows df1 = map (\<lambda>(r, v). r\<lparr>prev_openInterest := v\<rparr>)
      (zip (rows df) (group_shift Map.empty (rows df)))"
    by (simp add: df1_def set_prev_openInterest_def)
  then have "\<lparr>columns = add_column ''change_in_OI'' (columns df1),
         rows = map (\<lambda>r. r\<lparr>change_in_OI :=
                  int64 (openInterest r - prev_openInterest r)\<rparr>) (rows df1)\<rparr> = derived_table df"
    using False by (simp add: derived_table_def df1_def set_prev_openInterest_def split_def)
  with write_change_in_OI [OF oi1 p1, of barplot df1, THEN conjunct2, rule_format, OF e1]
  have "plot_change_in_open_interest barplot df1 =
      (case barplot (nonzero_changes (derived_table df)) of
         Some x \<Rightarrow> Inl x | None \<Rightarrow> Inr (nonzero_changes (derived_table df)),
       derived_table df)"
    by (simp add: Let_def)
  with write_change_in_OI [OF oi1 p1, of barplot df, THEN conjunct1] e
  show ?thesis by simp
qed

lemma plot_change_KeyError:
  assumes "\<not> (''openInterest'' \<in> set (columns df) \<and>
    (''prev_openInterest'' \<in> set (columns df) \<or> ''strike'' \<in> set (columns df)))"
  shows "\<exists>c. plot_change_in_open_interest barplot df = (Inl (KeyError c), df)"
  using assms
  by (auto simp: plot_change_in_open_interest_def ensure_prev_openInterest_def column_def)

lemma length_rows_derived_table: "length (rows (derived_table df)) = length (rows df)"
  by (simp add: derived_table_def group_shift_length)





lemmas plot_defs = plot_change_in_open_interest_def ensure_prev_openInterest_def
  set_prev_openInterest_def set_change_in_OI_def add_column_def column_def mask_rows_def
  plot_volume_def plot_open_interest_sorted_def sort_values_def sorts_before_def
  contract_def quote_def int64_def needs_hue_def Let_def

lemma two_observations_run:
  "plot_change_in_open_interest needs_hue two_observations =
     (Inr nonzero_observations, derived_observations)"
  by (simp add: two_observations_def derived_observations_def nonzero_observations_def plot_defs)




lemma plot_change_returned:
  assumes "plot_change_in_open_interest barplot df = (Inr view, df')"
  shows "df' = derived_table df \<and> view = nonzero_changes df'"
proof (cases "''openInterest'' \<in> set (columns df) \<and>
    (''prev_openInterest'' \<in> set (columns df) \<or> ''strike'' \<in> set (columns df))")
  case True
  then have "plot_change_in_open_interest barplot df =
      (case barplot (nonzero_changes (derived_table df)) of
         Some x \<Rightarrow> Inl x | None \<Rightarrow> Inr (nonzero_changes (derived_table df)),
       derived_table df)"
    by (intro plot_change_runs) simp_all
  with assms show ?thesis
    by (auto split: option.splits)
next
  case False
  from plot_change_KeyError [OF this, of barplot] assms show ?thesis by auto
qed

text \<open>
  Claim C9. The table handed to the plot has the labels of the derived table and exactly
  its rows whose \<^verbatim>\<open>change_in_OI\<close> is not 0, in their order: a row with change 0 is left
  out, every other row is kept.
\<close>

theorem nonzero_changes_view:
  assumes "plot_change_in_open_interest barplot df = (Inr view, df')"
  shows "columns view = columns df' \<and>
         rows view = filter (\<lambda>r. change_in_OI r \<noteq> 0) (rows df') \<and>
         (\<forall>r. r \<in> set (rows view) \<longleftrightarrow> r \<in> set (rows df') \<and> change_in_OI r \<noteq> 0) \<and>
         subseq (rows view) (rows df')"
proof -
  from plot_change_returned [OF assms]
  have v: "view = \<lparr>columns = columns df', rows = filter (\<lambda>r. change_in_OI r \<noteq> 0) (rows df')\<rparr>"
    by (simp add: nonzero_changes_def)
  then have "rows view = filter (\<lambda>r. change_in_OI r \<noteq> 0) (rows df')" by simp
  moreover from this have "subseq (rows view) (rows df')"
    by (simp add: subseq_filter_left)
  ultimately show ?thesis using v by auto
qed

theorem nonzero_changes_view_witness:
  "plot_change_in_open_interest needs_hue two_observations =
     (Inr nonzero_observations, derived_observations) \<and>
   map change_in_OI (rows derived_observations) = [30, 8, 20, 0] \<and>
   map change_in_OI (rows nonzero_observations) = [30, 8, 20] \<and>
   columns nonzero_observations = columns derived_observations \<and>
   rows nonzero_observations = filter (\<lambda>r. change_in_OI r \<noteq> 0) (rows derived_observations) \<and>
   subseq (rows nonzero_observations) (rows derived_observations)"
proof -
  have "map change_in_OI (rows derived_observations) = [30, 8, 20, 0]"
    and "map change_in_OI (rows nonzero_observations) = [30, 8, 20]"
    by (simp_all add: derived_observations_def nonzero_observations_def)
  with nonzero_changes_view [OF two_observations_run] two_observations_run
  show ?thesis by blast
qed

lemma plot_volume_unfold:
  "plot_volume df =
     (if ''volume'' \<in> set (columns df)
      then Inr \<lparr>columns = columns df, rows = filter (\<lambda>r. 0 < volume r) (rows df)\<rparr>
      else Inl (KeyError ''volume''), df)"
  by (simp add: plot_volume_def column_def mask_rows_filter comp_def)

lemma plot_open_interest_sorted_unfold:
  "plot_open_interest_sorted df =
     (if ''openInterest'' \<notin> set (columns df) then Inl (KeyError ''openInterest'')
      else if ''expiration_date'' \<notin> set (columns df) then Inl (KeyError ''expiration_date'')
      else if ''strike'' \<notin> set (columns df) then Inl (KeyError ''strike'')
      else Inr \<lparr>columns = columns df,
                rows = stable_sort (filter (\<lambda>r. 0 < openInterest r) (rows df))\<rparr>, df)"
  by (simp add: plot_open_interest_sorted_def column_def mask_rows_filter sort_values_def comp_def)

text \<open>
  Claim C5, as the code has it. \<^verbatim>\<open>plot_volume\<close> and \<^verbatim>\<open>plot_open_interest_sorted\<close> leave
  the table they are given as it is. \<^verbatim>\<open>plot_change_in_open_interest\<close> writes into the
  table it is given. When a column it reads is missing it raises \<^verbatim>\<open>KeyError\<close> before
  writing, and the table is as it was. Otherwise the table is written, whether the
  figure is then drawn or the plotting library raises: it has the labels
  \<^verbatim>\<open>prev_openInterest\<close> and \<^verbatim>\<open>change_in_OI\<close> in addition, the same number of rows in
  the same order, and every row differs from what it was in these two cells at most; a
  \<^verbatim>\<open>prev_openInterest\<close> column that was there is kept. What is written depends on the
  table alone, not on the plotting library.
\<close>

theorem views_and_their_input:
  "snd (plot_volume df) = df \<and>
   snd (plot_open_interest_sorted df) = df \<and>
   (\<forall>res df'. plot_change_in_open_interest barplot df = (res, df') \<longrightarrow>
      (if ''openInterest'' \<in> set (columns df) \<and>
          (''prev_openInterest'' \<in> set (columns df) \<or> ''strike'' \<in> set (columns df))
       then columns df' =
              add_column ''change_in_OI'' (add_column ''prev_openInterest'' (columns df)) \<and>
            length (rows df') = length (rows df) \<and>
            (\<forall>i<length (rows df).
               \<exists>p c. rows df' ! i = (rows df ! i)\<lparr>prev_openInterest := p, change_in_OI := c\<rparr>) \<and>
            (''prev_openInterest'' \<in> set (columns df) \<longrightarrow>
               map prev_openInterest (rows df') = map prev_openInterest (rows df)) \<and>
            (\<forall>other. snd (plot_change_in_open_interest other df) = df')
       else df' = df \<and> (\<exists>c. res = Inl (KeyError c))))"
proof (intro conjI allI impI)
  show "snd (plot_volume df) = df"
    by (simp add: plot_volume_unfold)
  show "snd (plot_open_interest_sorted df) = df"
    by (simp add: plot_open_interest_sorted_unfold)
next
  fix res df'
  assume run: "plot_change_in_open_interest barplot df = (res, df')"
  show "if ''openInterest'' \<in> set (columns df) \<and>
          (''prev_openInterest'' \<in> set (columns df) \<or> ''strike'' \<in> set (columns df))
       then columns df' =
              add_column ''change_in_OI'' (add_column ''prev_openInterest'' (columns df)) \<and>
            length (rows df') = length (rows df) \<and>
            (\<forall>i<length (rows df).
               \<exists>p c. rows df' ! i = (rows df ! i)\<lparr>prev_openInterest := p, change_in_OI := c\<rparr>) \<and>
            (''prev_openInterest'' \<in> set (columns df) \<longrightarrow>
               map prev_openInterest (rows df') = map prev_openInterest (rows df)) \<and>
            (\<forall>other. snd (plot_change_in_open_interest other df) = df')
       else df' = df \<and> (\<exists>c. res = Inl (KeyError c))"
  proof (cases "''openInterest'' \<in> set (columns df) \<and>
      (''prev_openInterest'' \<in> set (columns df) \<or> ''strike'' \<in> set (columns df))")
    case False
    from plot_change_KeyError [OF this, of barplot] run False show ?thesis by auto
  next
    case True
    then have oi: "''openInterest'' \<in> set (columns df)"
      and pk: "''prev_openInterest'' \<in> set (columns df) \<or> ''strike'' \<in> set (columns df)"
      by simp_all
    from plot_change_runs [OF oi pk, of barplot] run have df': "df' = derived_table df"
      by simp
    have 1: "columns df' =
        add_column ''change_in_OI'' (add_column ''prev_openInterest'' (columns df))"
      by (simp add: df' derived_table_def)
    have 2: "length (rows df') = length (rows df)"
      by (simp add: df' length_rows_derived_table)
    have 3: "\<exists>p c. rows df' ! i = (rows df ! i)\<lparr>prev_openInterest := p, change_in_OI := c\<rparr>"
      if "i < length (rows df)" for i
    proof -
      define ps where "ps = (if ''prev_openInterest'' \<in> set (columns df)
        then map prev_openInterest (rows df) else group_shift Map.empty (rows df))"
      have "length ps = length (rows df)"
        by (simp add: ps_def group_shift_length)
      with that have "rows df' ! i = (rows df ! i)\<lparr>prev_openInterest := ps ! i,
          change_in_OI := int64 (openInterest (rows df ! i) - ps ! i)\<rparr>"
        unfolding df' derived_table_def ps_def [symmetric] by simp
      then show ?thesis by blast
    qed
    have 4: "map prev_openInterest (rows df') = map prev_openInterest (rows df)"
      if "''prev_openInterest'' \<in> set (columns df)"
      using that by (simp add: df' derived_table_def map_zip_own_column comp_def)
    have 5: "snd (plot_change_in_open_interest other df) = df'" for other
      by (simp add: df' plot_change_runs [OF oi pk, of other])
    from True 1 2 3 4 5 show ?thesis by simp
  qed
qed

text \<open>
  The table is not left unchanged: after the call it has two more columns.
\<close>

theorem views_and_their_input_counterexample:
  "snd (plot_change_in_open_interest needs_hue two_observations) \<noteq> two_observations \<and>
   columns (snd (plot_change_in_open_interest needs_hue two_observations)) =
     columns two_observations @ [''prev_openInterest'', ''change_in_OI'']"
  by (simp add: two_observations_run) (simp add: two_observations_def derived_observations_def)

theorem views_and_their_input_witness:
  "plot_change_in_open_interest needs_hue two_observations =
     (Inr nonzero_observations, derived_observations) \<and>
   columns derived_observations =
     add_column ''change_in_OI'' (add_column ''prev_openInterest'' (columns two_observations)) \<and>
   length (rows derived_observations) = length (rows two_observations) \<and>
   plot_change_in_open_interest needs_hue no_hue_table =
     (Inl ValueError,
      \<lparr>columns = [''strike'', ''openInterest'', ''prev_openInterest'', ''change_in_OI''],
       rows = [(quote 100 30 0)\<lparr>prev_openInterest := 0, change_in_OI := 30\<rparr>]\<rparr>) \<and>
   plot_change_in_open_interest needs_hue (DataFrame :: unit frame) =
     (Inl (KeyError ''strike''), DataFrame) \<and>
   snd (plot_volume two_observations) = two_observations \<and>
   snd (plot_open_interest_sorted two_observations) = two_observations"
proof -
  have a: "plot_change_in_open_interest needs_hue (DataFrame :: unit frame) =
      (Inl (KeyError ''strike''), DataFrame)"
    by (simp add: DataFrame_def plot_defs)
  have b: "plot_change_in_open_interest needs_hue no_hue_table =
     (Inl ValueError,
      \<lparr>columns = [''strike'', ''openInterest'', ''prev_openInterest'', ''change_in_OI''],
       rows = [(quote 100 30 0)\<lparr>prev_openInterest := 0, change_in_OI := 30\<rparr>]\<rparr>)"
    by (simp add: no_hue_table_def plot_defs)
  have c: "''openInterest'' \<in> set (columns two_observations) \<and>
      (''prev_openInterest'' \<in> set (columns two_observations) \<or>
       ''strike'' \<in> set (columns two_observations))"
    by (simp add: two_observations_def)
  note t = views_and_their_input [of two_observations needs_hue]
  from t have "snd (plot_volume two_observations) = two_observations"
    and "snd (plot_open_interest_sorted two_observations) = two_observations"
    by blast+
  moreover from t two_observations_run c
  have "columns derived_observations =
      add_column ''change_in_OI'' (add_column ''prev_openInterest'' (columns two_observations)) \<and>
    length (rows derived_observations) = length (rows two_observations)"
    by (elim conjE allE [of _ "Inr nonzero_observations"] allE [of _ derived_observations]) simp
  ultimately show ?thesis
    using a b two_observations_run by blast
qed

section \<open>The sorted open interest view\<close>

lemma in_order_iff: "in_order a b \<longleftrightarrow> \<not> sorts_before b a"
  by (auto simp: in_order_def sorts_before_def)

lemma in_order_trans: "in_order a b \<Longrightarrow> in_order b c \<Longrightarrow> in_order a c"
  by (auto simp: in_order_def)

lemma sorts_before_in_order: "sorts_before a b \<Longrightarrow> in_order a b"
  by (auto simp: in_order_def sorts_before_def)

lemma mset_insert_row: "mset (insert_row x ys) = add_mset x (mset ys)"
  by (induction ys) simp_all

lemma mset_stable_sort: "mset (stable_sort xs) = mset xs"
  by (induction xs) (simp_all add: mset_insert_row)

lemma set_insert_row: "set (insert_row x ys) = insert x (set ys)"
  using mset_insert_row [of x ys] by (metis set_mset_add_mset_insert set_mset_mset)

lemma sorted_insert_row:
  "sorted_wrt in_order ys \<Longrightarrow> sorted_wrt in_order (insert_row x ys)"
proof (induction ys)
  case Nil
  show ?case by simp
next
  case (Cons y ys)
  show ?case
  proof (cases "sorts_before y x")
    case True
    with Cons show ?thesis
      by (auto simp: set_insert_row sorts_before_in_order)
  next
    case False
    then have "in_order x y" by (simp add: in_order_iff)
    with Cons.prems False show ?thesis
      by (auto intro: in_order_trans)
  qed
qed

lemma sorted_stable_sort: "sorted_wrt in_order (stable_sort xs)"
  by (induction xs) (simp_all add: sorted_insert_row)

lemma filter_insert_row:
  "filter (\<lambda>r. expiration_date r = d \<and> strike r = k) (insert_row x ys) =
     (if expiration_date x = d \<and> strike x = k
      then x # filter (\<lambda>r. expiration_date r = d \<and> strike r = k) ys
      else filter (\<lambda>r. expiration_date r = d \<and> strike r = k) ys)"
  by (induction ys) (auto simp: sorts_before_def)

lemma stable_sort_stable:
  "filter (\<lambda>r. expiration_date r = d \<and> strike r = k) (stable_sort xs) =
     filter (\<lambda>r. expiration_date r = d \<and> strike r = k) xs"
  by (induction xs) (simp_all add: filter_insert_row)

lemma in_order_both:
  "in_order a b \<Longrightarrow> in_order b a \<Longrightarrow>
     expiration_date a = expiration_date b \<and> strike a = strike b"
  by (auto simp: in_order_def)

lemma in_order_same_key:
  "expiration_date b = expiration_date c \<Longrightarrow> strike b = strike c \<Longrightarrow>
     in_order a b \<Longrightarrow> in_order a c"
  by (auto simp: in_order_def)

lemma stable_sorted_unique:
  assumes "sorted_wrt in_order ys" and "sorted_wrt in_order zs"
    and "\<And>d k. filter (\<lambda>r. expiration_date r = d \<and> strike r = k) ys =
               filter (\<lambda>r. expiration_date r = d \<and> strike r = k) zs"
  shows "ys = zs"
  using assms
proof (induction ys arbitrary: zs)
  case Nil
  show ?case
  proof (cases zs)
    case Nil
    then show ?thesis by simp
  next
    case (Cons z zs')
    with Nil.prems(3) [of "expiration_date z" "strike z"] show ?thesis by simp
  qed
next
  case (Cons y ys)
  let ?key = "\<lambda>a r. expiration_date r = expiration_date a \<and> strike r = strike a"
  have ey: "filter (?key y) (y # ys) = filter (?key y) zs"
    by (rule Cons.prems(3))
  have "y \<in> set (filter (?key y) (y # ys))" by simp
  then have "y \<in> set (filter (?key y) zs)"
    by (simp only: ey)
  then have yin: "y \<in> set zs" by simp
  then obtain z zs' where zs: "zs = z # zs'"
    by (cases zs) auto
  have ez: "filter (?key z) (y # ys) = filter (?key z) zs"
    by (rule Cons.prems(3))
  have "z \<in> set (filter (?key z) zs)"
    by (simp add: zs)
  then have "z \<in> set (filter (?key z) (y # ys))"
    by (simp only: ez)
  then obtain z2 where z2: "z2 \<in> set (y # ys)" and kz: "?key z z2"
    by (auto split: if_splits)
  have yz: "in_order y z"
  proof (cases "z2 = y")
    case True
    with kz show ?thesis by (simp add: in_order_def)
  next
    case False
    with z2 Cons.prems(1) have "in_order y z2" by simp
    with kz show ?thesis by (simp add: in_order_def)
  qed
  have zy: "in_order z y"
  proof (cases "y = z")
    case True
    then show ?thesis by (simp add: in_order_def)
  next
    case False
    with yin zs Cons.prems(2) show ?thesis by simp
  qed
  from in_order_both [OF yz zy] have key: "?key y z" by simp
  with ey zs have "y = z" by simp
  moreover have "ys = zs'"
  proof (rule Cons.IH)
    show "sorted_wrt in_order ys" using Cons.prems(1) by simp
    show "sorted_wrt in_order zs'" using Cons.prems(2) zs by simp
    fix d k
    from Cons.prems(3) [of d k] zs \<open>y = z\<close>
    show "filter (\<lambda>r. expiration_date r = d \<and> strike r = k) ys =
          filter (\<lambda>r. expiration_date r = d \<and> strike r = k) zs'"
      by (simp split: if_splits)
  qed
  ultimately show ?case using zs by simp
qed

text \<open>
  A stable sort is determined by what it achieves: any arrangement of the rows that is in
  order and keeps rows with equal keys in their order is the one computed here, whatever
  algorithm the library uses.
\<close>

lemma sort_values_determined:
  assumes "sorted_wrt in_order ys"
    and "\<And>d k. filter (\<lambda>r. expiration_date r = d \<and> strike r = k) ys =
               filter (\<lambda>r. expiration_date r = d \<and> strike r = k) xs"
  shows "ys = stable_sort xs"
  using assms(1) sorted_stable_sort
  by (rule stable_sorted_unique) (simp add: assms(2) stable_sort_stable)

text \<open>
  Claim C4. The table handed to the plot by \<^verbatim>\<open>plot_open_interest_sorted\<close> has the labels
  of the input and exactly the rows of the input whose open interest is positive, each
  as often as it occurs there. They are ordered by expiration date descending and, for
  equal dates, by strike ascending; rows with the same date and the same strike stand
  in the order they have in the input.
\<close>

theorem sorted_open_interest_view:
  assumes "plot_open_interest_sorted df = (Inr view, df')"
  shows "columns view = columns df \<and>
         mset (rows view) = mset (filter (\<lambda>r. 0 < openInterest r) (rows df)) \<and>
         sorted_wrt (\<lambda>a b. expiration_date b < expiration_date a \<or>
                       (expiration_date a = expiration_date b \<and> strike a \<le> strike b)) (rows view) \<and>
         (\<forall>d k. filter (\<lambda>r. expiration_date r = d \<and> strike r = k) (rows view) =
                 filter (\<lambda>r. expiration_date r = d \<and> strike r = k \<and> 0 < openInterest r) (rows df))"
proof -
  from assms have v: "view = \<lparr>columns = columns df,
      rows = stable_sort (filter (\<lambda>r. 0 < openInterest r) (rows df))\<rparr>"
    by (auto simp: plot_open_interest_sorted_unfold split: if_splits)
  have "sorted_wrt in_order (rows view)"
    by (simp add: v sorted_stable_sort)
  then have "sorted_wrt (\<lambda>a b. expiration_date b < expiration_date a \<or>
      (expiration_date a = expiration_date b \<and> strike a \<le> strike b)) (rows view)"
    by (simp add: in_order_def [abs_def])
  moreover have "filter (\<lambda>r. expiration_date r = d \<and> strike r = k) (rows view) =
      filter (\<lambda>r. expiration_date r = d \<and> strike r = k \<and> 0 < openInterest r) (rows df)" for d k
    by (simp add: v stable_sort_stable conj_ac)
  ultimately show ?thesis
    by (simp add: v mset_stable_sort)
qed

lemma two_expirations_run:
  "plot_open_interest_sorted two_expirations = (Inr sorted_expirations, two_expirations)"
  by (simp add: two_expirations_def sorted_expirations_def plot_defs)

theorem sorted_open_interest_view_witness:
  "plot_open_interest_sorted two_expirations = (Inr sorted_expirations, two_expirations) \<and>
   map (\<lambda>r. (expiration_date r, strike r, option_type r)) (rows sorted_expirations) =
     [(''2025-02-01'', 100, ''Call''), (''2025-01-01'', 90, ''Call''),
      (''2025-01-01'', 90, ''Put''), (''2025-01-01'', 100, ''Call'')] \<and>
   mset (rows sorted_expirations) = mset (filter (\<lambda>r. 0 < openInterest r) (rows two_expirations)) \<and>
   sorted_wrt (\<lambda>a b. expiration_date b < expiration_date a \<or>
                 (expiration_date a = expiration_date b \<and> strike a \<le> strike b))
     (rows sorted_expirations)"
proof -
  have "map (\<lambda>r. (expiration_date r, strike r, option_type r)) (rows sorted_expirations) =
     [(''2025-02-01'', 100, ''Call''), (''2025-01-01'', 90, ''Call''),
      (''2025-01-01'', 90, ''Put''), (''2025-01-01'', 100, ''Call'')]"
    by (simp add: sorted_expirations_def contract_def quote_def)
  with sorted_open_interest_view [OF two_expirations_run] two_expirations_run
  show ?thesis by blast
qed


end
